theory Spec2Isabelle
  imports Complex_Main "HOL-Library.Log_Nat"
begin

section \<open>Data model (context/ClaimsContext.tsx)\<close>

text \<open>
  The records follow the TypeScript interfaces of \<^verbatim>\<open>ClaimsContext.tsx\<close>. Three
  interfaces have a field \<^verbatim>\<open>id\<close>, and \<open>id\<close> is the identity function of HOL, so the
  fields are \<open>assessment_id\<close>, \<open>claim_id\<close> and \<open>draft_id\<close>; the field \<^verbatim>\<open>type\<close> of an
  assessment is \<open>damage_type\<close>. Every other field keeps its name; the fields a draft
  shares with a claim carry the prefix \<open>draft_\<close>.

  A field of the type \<^verbatim>\<open>number\<close> holds a \<open>number\<close>, defined below.

  A timestamp is written by \<^verbatim>\<open>new Date().toISOString()\<close>. The model keeps the instant
  that the string denotes, in milliseconds since the epoch, which is also what
  \<^verbatim>\<open>Date.now()\<close> returns: the ISO rendering is injective and keeps the order of the
  instants it renders.
\<close>

type_synonym timestamp = nat

subsection \<open>Numbers\<close>

text \<open>
  A JavaScript \<^verbatim>\<open>number\<close> is an IEEE 754 double: a finite value, \<^verbatim>\<open>NaN\<close> or one of
  the two infinities. \<open>Num q\<close> is the number that the decimal literal of the rational
  \<open>q\<close> denotes, which is the double nearest to \<open>q\<close> (\<open>q\<close> itself when a double has
  that value); the double \<^verbatim>\<open>-0\<close> is not told apart from \<open>0\<close>. After \<^verbatim>\<open>JSON.parse\<close> a
  field of the type \<^verbatim>\<open>number\<close> may also hold \<^verbatim>\<open>null\<close>, which is \<open>Null\<close>.

  \<open>to_double\<close> rounds a rational to the nearest double, ties to the even significand:
  \<open>e\<close> is the binary exponent of \<open>\<bar>x\<bar>\<close>, at least \<open>-1022\<close> (below it the doubles are
  subnormal), the doubles near \<open>x\<close> are the multiples of \<open>2 ^ (e - 52)\<close>, and a
  result of magnitude \<open>2 ^ 1024\<close> or more is an infinity.
\<close>

datatype number = Num rat | NaN | Infinity | Neg_Infinity | Null

definition pow2 :: "int \<Rightarrow> rat" where
  "pow2 k = (if 0 \<le> k then 2 ^ nat k else 1 / 2 ^ nat (- k))"

definition round_half_even :: "rat \<Rightarrow> int" where
  "round_half_even s =
     (let f = \<lfloor>s\<rfloor>; r = s - of_int f
      in if r < 1 / 2 then f else if 1 / 2 < r then f + 1 else if even f then f else f + 1)"

definition to_double :: "rat \<Rightarrow> number" where
  "to_double x =
     (if x = 0 then Num 0
      else let a = \<bar>x\<bar>;
               d = bitlen (fst (quotient_of a)) - bitlen (snd (quotient_of a));
               e = (if pow2 d \<le> a then d else d - 1);
               k = max e (- 1022) - 52;
               r = of_int (round_half_even (a / pow2 k)) * pow2 k
           in if 2 ^ 1024 \<le> r then (if 0 < x then Infinity else Neg_Infinity)
              else Num (if 0 < x then r else - r))"

text \<open>
  The operand of an arithmetic operator is converted to a double: \<^verbatim>\<open>null\<close> counts as
  \<open>0\<close>. \<open>js_add\<close> is the operator \<^verbatim>\<open>+\<close> on two values of number fields: the exact sum
  of two finite doubles, rounded.
\<close>

fun double_of :: "number \<Rightarrow> number" where
  "double_of (Num q) = to_double q"
| "double_of Null = Num 0"
| "double_of NaN = NaN"
| "double_of Infinity = Infinity"
| "double_of Neg_Infinity = Neg_Infinity"

fun add_doubles :: "number \<Rightarrow> number \<Rightarrow> number" where
  "add_doubles NaN b = NaN"
| "add_doubles a NaN = NaN"
| "add_doubles Infinity Neg_Infinity = NaN"
| "add_doubles Neg_Infinity Infinity = NaN"
| "add_doubles Infinity b = Infinity"
| "add_doubles a Infinity = Infinity"
| "add_doubles Neg_Infinity b = Neg_Infinity"
| "add_doubles a Neg_Infinity = Neg_Infinity"
| "add_doubles (Num x) (Num y) = to_double (x + y)"
| "add_doubles (Num x) Null = to_double x"
| "add_doubles Null (Num y) = to_double y"
| "add_doubles Null Null = Num 0"

definition js_add :: "number \<Rightarrow> number \<Rightarrow> number" where
  "js_add a b = add_doubles (double_of a) (double_of b)"

text \<open>The falsy numbers of \<^verbatim>\<open>||\<close>: zero, \<^verbatim>\<open>NaN\<close> and \<^verbatim>\<open>null\<close>.\<close>

definition falsy :: "number \<Rightarrow> bool" where
  "falsy n = (case double_of n of Num q \<Rightarrow> q = 0 | NaN \<Rightarrow> True | _ \<Rightarrow> False)"

text \<open>
  \<^verbatim>\<open>JSON.stringify\<close> writes a finite number with the digits that read back as the
  same double, and writes \<^verbatim>\<open>NaN\<close> and the infinities as \<^verbatim>\<open>null\<close>;
  \<open>json_number n\<close> is what \<^verbatim>\<open>JSON.parse\<close> returns for the text written from \<open>n\<close>.
\<close>

fun json_number :: "number \<Rightarrow> number" where
  "json_number (Num q) = (case to_double q of Num r \<Rightarrow> Num q | _ \<Rightarrow> Null)"
| "json_number n = Null"

fun finite_number :: "number \<Rightarrow> bool" where
  "finite_number (Num q) = (case to_double q of Num r \<Rightarrow> True | _ \<Rightarrow> False)"
| "finite_number n = False"

subsection \<open>Records\<close>

datatype DamageType = Scratch | Dent | Structural | Glass | Paint

datatype Severity = Minor | Moderate | Severe

datatype Status = Pending | Processing | Approved | Rejected

record DamageAssessment =
  assessment_id :: string
  damage_type :: DamageType
  severity :: Severity
  location :: string
  estimatedCost :: number
  confidence :: number

text \<open>
  The nine fields of the form state of \<^verbatim>\<open>NewClaim.tsx\<close> and \<^verbatim>\<open>EditClaim.tsx\<close>
  (\<^verbatim>\<open>formData\<close>) come first; \<open>ClaimData\<close> is
  \<^verbatim>\<open>Omit<Claim, 'id' | 'createdAt' | 'updatedAt'>\<close>, the argument of \<^verbatim>\<open>addClaim\<close>;
  \<open>Claim\<close> adds the three fields that \<^verbatim>\<open>addClaim\<close> generates. An optional field
  (\<^verbatim>\<open>repairShopId?\<close>, \<^verbatim>\<open>processingTime?\<close>) is an \<open>option\<close>, \<open>None\<close> for
  \<^verbatim>\<open>undefined\<close>.
\<close>

record FormData =
  policyNumber :: string
  customerName :: string
  customerEmail :: string
  customerPhone :: string
  vehicleMake :: string
  vehicleModel :: string
  vehicleYear :: number
  accidentDate :: string
  accidentDescription :: string

record ClaimData = FormData +
  photos :: "string list"
  videos :: "string list"
  status :: Status
  damageAssessments :: "DamageAssessment list"
  totalEstimatedCost :: number
  repairShopId :: "string option"
  aiAnalysisComplete :: bool
  processingTime :: "number option"

record Claim = ClaimData +
  claim_id :: string
  createdAt :: timestamp
  updatedAt :: timestamp

text \<open>
  \<^verbatim>\<open>Partial<Claim>\<close>: every key of a claim may be absent (\<open>None\<close>) or present with a
  value (\<open>Some v\<close>). A present key of an optional field may hold \<^verbatim>\<open>undefined\<close>
  (\<open>Some None\<close>), as \<^verbatim>\<open>processingTime: isAnalyzing ? undefined : 3\<close> writes it.
  The key of the field \<open>f\<close> is \<open>p_f\<close>.
\<close>

record PartialClaim =
  p_policyNumber :: "string option"
  p_customerName :: "string option"
  p_customerEmail :: "string option"
  p_customerPhone :: "string option"
  p_vehicleMake :: "string option"
  p_vehicleModel :: "string option"
  p_vehicleYear :: "number option"
  p_accidentDate :: "string option"
  p_accidentDescription :: "string option"
  p_photos :: "string list option"
  p_videos :: "string list option"
  p_status :: "Status option"
  p_damageAssessments :: "DamageAssessment list option"
  p_totalEstimatedCost :: "number option"
  p_repairShopId :: "string option option"
  p_aiAnalysisComplete :: "bool option"
  p_processingTime :: "number option option"
  p_claim_id :: "string option"
  p_createdAt :: "timestamp option"
  p_updatedAt :: "timestamp option"

definition no_keys :: PartialClaim where
  "no_keys = \<lparr> p_policyNumber = None, p_customerName = None, p_customerEmail = None,
      p_customerPhone = None, p_vehicleMake = None, p_vehicleModel = None,
      p_vehicleYear = None, p_accidentDate = None, p_accidentDescription = None,
      p_photos = None, p_videos = None, p_status = None, p_damageAssessments = None,
      p_totalEstimatedCost = None, p_repairShopId = None, p_aiAnalysisComplete = None,
      p_processingTime = None, p_claim_id = None, p_createdAt = None, p_updatedAt = None \<rparr>"

text \<open>
  A JavaScript \<^verbatim>\<open>Set<string>\<close> is the list of its elements in insertion order;
  \<^verbatim>\<open>has\<close> is membership, \<^verbatim>\<open>add\<close> appends an element that is not there yet,
  \<^verbatim>\<open>new Set(iterable)\<close> adds the elements one after the other, and
  \<^verbatim>\<open>Array.from(set)\<close> lists them in insertion order.
\<close>

type_synonym 'a js_set = "'a list"

definition has :: "'a js_set \<Rightarrow> 'a \<Rightarrow> bool" where
  "has s x = (x \<in> set s)"

definition set_add :: "'a js_set \<Rightarrow> 'a \<Rightarrow> 'a js_set" where
  "set_add s x = (if x \<in> set s then s else s @ [x])"

definition new_Set :: "'a list \<Rightarrow> 'a js_set" where
  "new_Set xs = foldl set_add [] xs"

definition Array_from :: "'a js_set \<Rightarrow> 'a list" where
  "Array_from s = s"

text \<open>
  \<^verbatim>\<open>InProgressClaim\<close>. The type parameter is the type of \<^verbatim>\<open>approvedAssessments\<close>: a
  set of ids in memory, and in storage the array that \<^verbatim>\<open>saveToStorage\<close> writes, which
  \<^verbatim>\<open>loadFromStorage\<close> reads with \<^verbatim>\<open>claim.approvedAssessments || []\<close> (so the key may
  be missing there).
\<close>

record 'a InProgressClaim_of =
  draft_id :: string
  formData :: PartialClaim
  draft_photos :: "string list"
  draft_videos :: "string list"
  draft_damageAssessments :: "DamageAssessment list"
  analysisComplete :: bool
  approvedAssessments :: 'a
  lastSaved :: timestamp

type_synonym InProgressClaim = "string js_set InProgressClaim_of"

type_synonym StoredInProgressClaim = "string list option InProgressClaim_of"

record ClaimsState =
  claims :: "Claim list"
  inProgressClaims :: "InProgressClaim list"
  loading :: bool
  error :: "string option"

datatype ClaimsAction =
    ADD_CLAIM Claim
  | UPDATE_CLAIM string PartialClaim
  | SET_LOADING bool
  | SET_ERROR "string option"
  | LOAD_CLAIMS "Claim list"
  | SAVE_IN_PROGRESS InProgressClaim
  | DELETE_IN_PROGRESS string
  | LOAD_IN_PROGRESS "InProgressClaim list"

definition initialState :: ClaimsState where
  "initialState = \<lparr> claims = [], inProgressClaims = [], loading = False, error = None \<rparr>"

section \<open>The reducer\<close>

text \<open>
  \<^verbatim>\<open>{ ...claim, ...updates }\<close>: a key that is present in \<^verbatim>\<open>updates\<close> overwrites the
  field of the claim, an absent key leaves it.
\<close>

definition overwrite :: "'a \<Rightarrow> 'a option \<Rightarrow> 'a" where
  "overwrite old new = (case new of None \<Rightarrow> old | Some v \<Rightarrow> v)"

definition spread :: "Claim \<Rightarrow> PartialClaim \<Rightarrow> Claim" where
  "spread claim updates = \<lparr>
     policyNumber = overwrite (policyNumber claim) (p_policyNumber updates),
     customerName = overwrite (customerName claim) (p_customerName updates),
     customerEmail = overwrite (customerEmail claim) (p_customerEmail updates),
     customerPhone = overwrite (customerPhone claim) (p_customerPhone updates),
     vehicleMake = overwrite (vehicleMake claim) (p_vehicleMake updates),
     vehicleModel = overwrite (vehicleModel claim) (p_vehicleModel updates),
     vehicleYear = overwrite (vehicleYear claim) (p_vehicleYear updates),
     accidentDate = overwrite (accidentDate claim) (p_accidentDate updates),
     accidentDescription = overwrite (accidentDescription claim) (p_accidentDescription updates),
     photos = overwrite (photos claim) (p_photos updates),
     videos = overwrite (videos claim) (p_videos updates),
     status = overwrite (status claim) (p_status updates),
     damageAssessments = overwrite (damageAssessments claim) (p_damageAssessments updates),
     totalEstimatedCost = overwrite (totalEstimatedCost claim) (p_totalEstimatedCost updates),
     repairShopId = overwrite (repairShopId claim) (p_repairShopId updates),
     aiAnalysisComplete = overwrite (aiAnalysisComplete claim) (p_aiAnalysisComplete updates),
     processingTime = overwrite (processingTime claim) (p_processingTime updates),
     claim_id = overwrite (claim_id claim) (p_claim_id updates),
     createdAt = overwrite (createdAt claim) (p_createdAt updates),
     updatedAt = overwrite (updatedAt claim) (p_updatedAt updates) \<rparr>"

text \<open>
  \<^verbatim>\<open>claimsReducer\<close>. The case \<^verbatim>\<open>UPDATE_CLAIM\<close> evaluates \<^verbatim>\<open>new Date()\<close> inside the
  callback of \<^verbatim>\<open>map\<close>, once for every claim whose id matches: the argument \<open>now_at\<close>
  gives the reading of the clock while the callback visits the claim at index \<open>k\<close>.
  No other case reads the clock.
\<close>

definition update_claim_at :: "(nat \<Rightarrow> timestamp) \<Rightarrow> string \<Rightarrow> PartialClaim \<Rightarrow> nat \<times> Claim \<Rightarrow> Claim" where
  "update_claim_at now_at i updates kc =
     (case kc of (k, claim) \<Rightarrow>
        if claim_id claim = i
        then (spread claim updates)\<lparr> updatedAt := now_at k \<rparr>
        else claim)"

fun claimsReducer :: "(nat \<Rightarrow> timestamp) \<Rightarrow> ClaimsState \<Rightarrow> ClaimsAction \<Rightarrow> ClaimsState" where
  "claimsReducer now_at state (ADD_CLAIM payload) =
     state\<lparr> claims := payload # claims state \<rparr>"
| "claimsReducer now_at state (UPDATE_CLAIM i updates) =
     state\<lparr> claims := map (update_claim_at now_at i updates) (enumerate 0 (claims state)) \<rparr>"
| "claimsReducer now_at state (SET_LOADING payload) =
     state\<lparr> loading := payload \<rparr>"
| "claimsReducer now_at state (SET_ERROR payload) =
     state\<lparr> error := payload \<rparr>"
| "claimsReducer now_at state (LOAD_CLAIMS payload) =
     state\<lparr> claims := payload \<rparr>"
| "claimsReducer now_at state (SAVE_IN_PROGRESS payload) =
     state\<lparr> inProgressClaims :=
       filter (\<lambda>claim. draft_id claim \<noteq> draft_id payload) (inProgressClaims state) @ [payload] \<rparr>"
| "claimsReducer now_at state (DELETE_IN_PROGRESS payload) =
     state\<lparr> inProgressClaims :=
       filter (\<lambda>claim. draft_id claim \<noteq> payload) (inProgressClaims state) \<rparr>"
| "claimsReducer now_at state (LOAD_IN_PROGRESS payload) =
     state\<lparr> inProgressClaims := payload \<rparr>"

section \<open>The operations of the provider\<close>

text \<open>
  \<^verbatim>\<open>`claim_${Date.now()}_${Math.random().toString(36).substr(2, 9)}`\<close>: the decimal
  rendering of the millisecond clock, and the suffix that
  \<^verbatim>\<open>Math.random().toString(36).substr(2, 9)\<close> returns (at most nine characters among
  \<^verbatim>\<open>0-9a-z\<close>), which the model takes as an argument.
\<close>

definition digit_char :: "nat \<Rightarrow> char" where
  "digit_char d = char_of (48 + d)"

function show_nat :: "nat \<Rightarrow> string" where
  "show_nat n = (if n < 10 then [digit_char n] else show_nat (n div 10) @ [digit_char (n mod 10)])"
  by pat_completeness auto
termination
  by (relation "measure (\<lambda>n. n)") auto

declare show_nat.simps [simp del]

definition generate_id :: "nat \<Rightarrow> string \<Rightarrow> string" where
  "generate_id date_now suffix = ''claim_'' @ show_nat date_now @ ''_'' @ suffix"

text \<open>
  Each operation of the provider dispatches one action, and the reducer applies it; the
  model of an operation is the action it dispatches. \<^verbatim>\<open>addClaim\<close> reads the clock three
  times: \<^verbatim>\<open>Date.now()\<close> for the id, \<^verbatim>\<open>new Date()\<close> for \<^verbatim>\<open>createdAt\<close> and
  \<^verbatim>\<open>new Date()\<close> again for \<^verbatim>\<open>updatedAt\<close>.
\<close>

definition addClaim :: "ClaimData \<Rightarrow> nat \<Rightarrow> string \<Rightarrow> timestamp \<Rightarrow> timestamp \<Rightarrow> ClaimsAction" where
  "addClaim claimData date_now suffix t_created t_updated =
     ADD_CLAIM (ClaimData.extend claimData
       (Claim.fields (generate_id date_now suffix) t_created t_updated))"

definition updateClaim :: "string \<Rightarrow> PartialClaim \<Rightarrow> ClaimsAction" where
  "updateClaim i updates = UPDATE_CLAIM i updates"

definition getClaim :: "ClaimsState \<Rightarrow> string \<Rightarrow> Claim option" where
  "getClaim state i = find (\<lambda>claim. claim_id claim = i) (claims state)"

definition saveInProgressClaim :: "InProgressClaim \<Rightarrow> ClaimsAction" where
  "saveInProgressClaim inProgressClaim = SAVE_IN_PROGRESS inProgressClaim"

definition getInProgressClaim :: "ClaimsState \<Rightarrow> string \<Rightarrow> InProgressClaim option" where
  "getInProgressClaim state i = find (\<lambda>claim. draft_id claim = i) (inProgressClaims state)"

definition deleteInProgressClaim :: "string \<Rightarrow> ClaimsAction" where
  "deleteInProgressClaim i = DELETE_IN_PROGRESS i"

definition dispatch_all :: "(nat \<Rightarrow> timestamp) \<Rightarrow> ClaimsState \<Rightarrow> ClaimsAction list \<Rightarrow> ClaimsState" where
  "dispatch_all now_at state actions = foldl (claimsReducer now_at) state actions"

section \<open>Local storage\<close>

text \<open>
  \<^verbatim>\<open>localStorage\<close> holds a text under each of the two keys
  \<^verbatim>\<open>'car-insurance-claims'\<close> and \<^verbatim>\<open>'car-insurance-in-progress'\<close>. \<^verbatim>\<open>JSON.stringify\<close>
  and \<^verbatim>\<open>JSON.parse\<close> belong to the platform. A text that is the JSON of a table is
  \<open>Json v\<close>, where \<open>v\<close> is the value that \<^verbatim>\<open>JSON.parse\<close> returns for it; a text that
  is no JSON is \<open>Unparseable\<close>, and the empty text, which \<^verbatim>\<open>if (savedClaims)\<close> takes
  as falsy, is \<open>Empty_text\<close>. A text that is the JSON of something else than an array
  of the records of its key (\<^verbatim>\<open>null\<close>, \<^verbatim>\<open>{}\<close>, \<^verbatim>\<open>5\<close>) is not among the contents of
  \<open>Storage\<close>: \<^verbatim>\<open>saveToStorage\<close> never writes one. \<^verbatim>\<open>getItem\<close> returns \<^verbatim>\<open>null\<close>
  (\<open>None\<close>) for an absent key. \<^verbatim>\<open>setItem\<close> throws when the medium refuses the write
  (quota exceeded): \<open>accepts\<close> says which keys the medium lets be written.

  What \<^verbatim>\<open>JSON.parse\<close> returns for the text that \<^verbatim>\<open>JSON.stringify\<close> wrote is not always
  the value written. A string, a boolean, an array of strings and a finite number come
  back as they were. \<^verbatim>\<open>NaN\<close> and the infinities are written as \<^verbatim>\<open>null\<close>
  (\<open>json_number\<close>). A key whose value is \<^verbatim>\<open>undefined\<close> is left out: for an optional
  field of a claim the absent key reads as \<^verbatim>\<open>undefined\<close> again (\<open>None\<close>), but in a
  \<^verbatim>\<open>Partial<Claim>\<close> the key is then absent (\<open>Some None\<close> becomes \<open>None\<close>). The
  functions \<open>json_assessment\<close>, \<open>json_claim\<close>, \<open>json_partial\<close> and \<open>json_draft\<close>
  give, record by record, the value read back.
\<close>

datatype js_error = SyntaxError | QuotaExceededError

datatype 'a stored_text = Empty_text | Unparseable | Json 'a

datatype storage_key = Claims_key | In_progress_key

record Storage =
  claims_item :: "Claim list stored_text option"
  in_progress_item :: "StoredInProgressClaim list stored_text option"

definition json_assessment :: "DamageAssessment \<Rightarrow> DamageAssessment" where
  "json_assessment a =
     a\<lparr> estimatedCost := json_number (estimatedCost a),
        confidence := json_number (confidence a) \<rparr>"

definition json_claim :: "Claim \<Rightarrow> Claim" where
  "json_claim c =
     c\<lparr> vehicleYear := json_number (vehicleYear c),
        damageAssessments := map json_assessment (damageAssessments c),
        totalEstimatedCost := json_number (totalEstimatedCost c),
        processingTime := map_option json_number (processingTime c) \<rparr>"

definition json_partial :: "PartialClaim \<Rightarrow> PartialClaim" where
  "json_partial u =
     u\<lparr> p_vehicleYear := map_option json_number (p_vehicleYear u),
        p_damageAssessments := map_option (map json_assessment) (p_damageAssessments u),
        p_totalEstimatedCost := map_option json_number (p_totalEstimatedCost u),
        p_repairShopId := (case p_repairShopId u of
            None \<Rightarrow> None
          | Some None \<Rightarrow> None
          | Some (Some shop) \<Rightarrow> Some (Some shop)),
        p_processingTime := (case p_processingTime u of
            None \<Rightarrow> None
          | Some None \<Rightarrow> None
          | Some (Some t) \<Rightarrow> Some (Some (json_number t))) \<rparr>"

definition json_draft :: "StoredInProgressClaim \<Rightarrow> StoredInProgressClaim" where
  "json_draft d =
     d\<lparr> formData := json_partial (formData d),
        draft_damageAssessments := map json_assessment (draft_damageAssessments d) \<rparr>"

text \<open>The claims that come back from the storage as they were written: no number field
  holds \<^verbatim>\<open>NaN\<close>, an infinity or \<^verbatim>\<open>null\<close>.\<close>

definition finite_assessment :: "DamageAssessment \<Rightarrow> bool" where
  "finite_assessment a = (finite_number (estimatedCost a) \<and> finite_number (confidence a))"

definition finite_claim :: "Claim \<Rightarrow> bool" where
  "finite_claim c =
     (finite_number (vehicleYear c) \<and> list_all finite_assessment (damageAssessments c) \<and>
      finite_number (totalEstimatedCost c) \<and>
      (case processingTime c of None \<Rightarrow> True | Some t \<Rightarrow> finite_number t))"

definition JSON_stringify_claims :: "Claim list \<Rightarrow> Claim list stored_text" where
  "JSON_stringify_claims v = Json (map json_claim v)"

definition JSON_stringify_in_progress ::
  "StoredInProgressClaim list \<Rightarrow> StoredInProgressClaim list stored_text" where
  "JSON_stringify_in_progress v = Json (map json_draft v)"

fun JSON_parse :: "'a stored_text \<Rightarrow> js_error + 'a" where
  "JSON_parse (Json v) = Inr v"
| "JSON_parse Unparseable = Inl SyntaxError"
| "JSON_parse Empty_text = Inl SyntaxError"

fun truthy :: "'a stored_text option \<Rightarrow> bool" where
  "truthy None = False"
| "truthy (Some Empty_text) = False"
| "truthy (Some Unparseable) = True"
| "truthy (Some (Json v)) = True"

text \<open>
  \<^verbatim>\<open>{ ...claim, approvedAssessments: new Set(claim.approvedAssessments || []) }\<close> and
  \<^verbatim>\<open>{ ...claim, approvedAssessments: Array.from(claim.approvedAssessments) }\<close>.
\<close>

definition from_storage :: "StoredInProgressClaim \<Rightarrow> InProgressClaim" where
  "from_storage claim = \<lparr>
     draft_id = draft_id claim, formData = formData claim,
     draft_photos = draft_photos claim, draft_videos = draft_videos claim,
     draft_damageAssessments = draft_damageAssessments claim,
     analysisComplete = analysisComplete claim,
     approvedAssessments =
       new_Set (case approvedAssessments claim of None \<Rightarrow> [] | Some ids \<Rightarrow> ids),
     lastSaved = lastSaved claim \<rparr>"

definition for_storage :: "InProgressClaim \<Rightarrow> StoredInProgressClaim" where
  "for_storage claim = \<lparr>
     draft_id = draft_id claim, formData = formData claim,
     draft_photos = draft_photos claim, draft_videos = draft_videos claim,
     draft_damageAssessments = draft_damageAssessments claim,
     analysisComplete = analysisComplete claim,
     approvedAssessments = Some (Array_from (approvedAssessments claim)),
     lastSaved = lastSaved claim \<rparr>"

text \<open>
  \<^verbatim>\<open>loadFromStorage\<close>. The body of the \<^verbatim>\<open>try\<close> dispatches \<^verbatim>\<open>LOAD_CLAIMS\<close>, then
  \<^verbatim>\<open>LOAD_IN_PROGRESS\<close>; an exception of \<^verbatim>\<open>JSON.parse\<close> leaves the \<^verbatim>\<open>try\<close> at once,
  and the \<^verbatim>\<open>catch\<close> writes one line to the console. The result is the list of the
  actions dispatched and the lines written to the console: no exception leaves the
  function.
\<close>

definition load_claims_step :: "Claim list stored_text option \<Rightarrow> js_error + ClaimsAction list" where
  "load_claims_step savedClaims =
     (if truthy savedClaims
      then (case savedClaims of
              None \<Rightarrow> Inr []
            | Some text \<Rightarrow> (case JSON_parse text of
                Inl e \<Rightarrow> Inl e
              | Inr parsed \<Rightarrow> Inr [LOAD_CLAIMS parsed]))
      else Inr [])"

definition load_in_progress_step ::
  "StoredInProgressClaim list stored_text option \<Rightarrow> js_error + ClaimsAction list" where
  "load_in_progress_step savedInProgress =
     (if truthy savedInProgress
      then (case savedInProgress of
              None \<Rightarrow> Inr []
            | Some text \<Rightarrow> (case JSON_parse text of
                Inl e \<Rightarrow> Inl e
              | Inr inProgress \<Rightarrow> Inr [LOAD_IN_PROGRESS (map from_storage inProgress)]))
      else Inr [])"

definition loadFromStorage :: "Storage \<Rightarrow> ClaimsAction list \<times> string list" where
  "loadFromStorage storage =
     (case load_claims_step (claims_item storage) of
        Inl e \<Rightarrow> ([], [''Error loading from localStorage:''])
      | Inr dispatched \<Rightarrow>
          (case load_in_progress_step (in_progress_item storage) of
             Inl e \<Rightarrow> (dispatched, [''Error loading from localStorage:''])
           | Inr dispatched' \<Rightarrow> (dispatched @ dispatched', [])))"

text \<open>
  \<^verbatim>\<open>saveToStorage\<close>: two writes inside one \<^verbatim>\<open>try\<close>; when the first one throws, the
  second one is not reached.
\<close>

definition setItem_claims ::
  "(storage_key \<Rightarrow> bool) \<Rightarrow> Storage \<Rightarrow> Claim list stored_text \<Rightarrow> js_error + Storage" where
  "setItem_claims accepts storage text =
     (if accepts Claims_key then Inr (storage\<lparr> claims_item := Some text \<rparr>)
      else Inl QuotaExceededError)"

definition setItem_in_progress ::
  "(storage_key \<Rightarrow> bool) \<Rightarrow> Storage \<Rightarrow> StoredInProgressClaim list stored_text \<Rightarrow>
   js_error + Storage" where
  "setItem_in_progress accepts storage text =
     (if accepts In_progress_key then Inr (storage\<lparr> in_progress_item := Some text \<rparr>)
      else Inl QuotaExceededError)"

definition saveToStorage :: "(storage_key \<Rightarrow> bool) \<Rightarrow> ClaimsState \<Rightarrow> Storage \<Rightarrow> Storage \<times> string list" where
  "saveToStorage accepts state storage =
     (case setItem_claims accepts storage (JSON_stringify_claims (claims state)) of
        Inl e \<Rightarrow> (storage, [''Error saving to localStorage:''])
      | Inr storage1 \<Rightarrow>
          (let inProgressForStorage = map for_storage (inProgressClaims state)
           in case setItem_in_progress accepts storage1
                     (JSON_stringify_in_progress inProgressForStorage) of
                Inl e \<Rightarrow> (storage1, [''Error saving to localStorage:''])
              | Inr storage2 \<Rightarrow> (storage2, [])))"

text \<open>
  The provider starts from \<open>initialState\<close> and runs \<^verbatim>\<open>loadFromStorage\<close> when it
  mounts: \<open>load\<close> is the state after the dispatched actions.
\<close>

definition load :: "(nat \<Rightarrow> timestamp) \<Rightarrow> Storage \<Rightarrow> ClaimsState" where
  "load now_at storage = dispatch_all now_at initialState (fst (loadFromStorage storage))"

section \<open>The pages that submit and update claims\<close>

text \<open>
  \<^verbatim>\<open>validateForm\<close> of \<^verbatim>\<open>NewClaim.tsx\<close> and \<^verbatim>\<open>EditClaim.tsx\<close>: eight fields must be
  non-empty strings (\<^verbatim>\<open>vehicleYear\<close> is not checked).
\<close>

definition validateForm :: "FormData \<Rightarrow> bool" where
  "validateForm fd =
     (policyNumber fd \<noteq> [] \<and> customerName fd \<noteq> [] \<and> customerEmail fd \<noteq> [] \<and>
      customerPhone fd \<noteq> [] \<and> vehicleMake fd \<noteq> [] \<and> vehicleModel fd \<noteq> [] \<and>
      accidentDate fd \<noteq> [] \<and> accidentDescription fd \<noteq> [])"

text \<open>
  \<^verbatim>\<open>damageAssessments.filter(assessment => approvedAssessments.has(assessment.id))\<close> and
  \<^verbatim>\<open>.reduce((sum, assessment) => sum + assessment.estimatedCost, 0)\<close>.
\<close>

definition approved_only :: "DamageAssessment list \<Rightarrow> string js_set \<Rightarrow> DamageAssessment list" where
  "approved_only assessments approved =
     filter (\<lambda>assessment. has approved (assessment_id assessment)) assessments"

definition reduce_cost :: "DamageAssessment list \<Rightarrow> number" where
  "reduce_cost assessments =
     foldl (\<lambda>sum assessment. js_add sum (estimatedCost assessment)) (Num 0) assessments"

definition sessionId :: string where
  "sessionId = ''new-claim-session''"

text \<open>
  \<^verbatim>\<open>handleSubmit\<close> of \<^verbatim>\<open>NewClaim.tsx\<close>: returns at once when the form is not valid;
  otherwise builds \<^verbatim>\<open>newClaim\<close>, calls \<^verbatim>\<open>addClaim\<close> and then
  \<^verbatim>\<open>clearSavedProgress\<close>, which calls \<^verbatim>\<open>deleteInProgressClaim(sessionId)\<close>. The result
  is the list of the actions dispatched.
\<close>

definition NewClaim_newClaim ::
  "FormData \<Rightarrow> string list \<Rightarrow> string list \<Rightarrow> DamageAssessment list \<Rightarrow> string js_set \<Rightarrow>
   bool \<Rightarrow> bool \<Rightarrow> ClaimData" where
  "NewClaim_newClaim fd ph vi assessments approved analysed isAnalyzing =
     (let approvedAssessmentsList = approved_only assessments approved;
          total = reduce_cost approvedAssessmentsList
      in FormData.extend fd
           (ClaimData.fields ph vi Pending approvedAssessmentsList total (Some ''shop_001'')
              analysed (if isAnalyzing then None else Some (Num 3))))"

definition NewClaim_handleSubmit ::
  "FormData \<Rightarrow> string list \<Rightarrow> string list \<Rightarrow> DamageAssessment list \<Rightarrow> string js_set \<Rightarrow>
   bool \<Rightarrow> bool \<Rightarrow> nat \<Rightarrow> string \<Rightarrow> timestamp \<Rightarrow> timestamp \<Rightarrow> ClaimsAction list" where
  "NewClaim_handleSubmit fd ph vi assessments approved analysed isAnalyzing
       date_now suffix t_created t_updated =
     (if \<not> validateForm fd then []
      else [addClaim (NewClaim_newClaim fd ph vi assessments approved analysed isAnalyzing)
              date_now suffix t_created t_updated,
            deleteInProgressClaim sessionId])"

text \<open>
  \<^verbatim>\<open>handleSubmit\<close> of \<^verbatim>\<open>EditClaim.tsx\<close>: returns at once when the form is not valid or
  there is no existing claim; otherwise calls \<^verbatim>\<open>updateClaim\<close> with the patch
  \<^verbatim>\<open>updatedClaim\<close>, whose \<^verbatim>\<open>damageAssessments\<close> is the whole list of the page.
\<close>

definition EditClaim_updatedClaim ::
  "FormData \<Rightarrow> string list \<Rightarrow> string list \<Rightarrow> DamageAssessment list \<Rightarrow> string js_set \<Rightarrow>
   bool \<Rightarrow> timestamp \<Rightarrow> PartialClaim" where
  "EditClaim_updatedClaim fd ph vi assessments approved analysed t_now =
     (let totalCost = reduce_cost (approved_only assessments approved)
      in \<lparr> p_policyNumber = Some (policyNumber fd), p_customerName = Some (customerName fd),
           p_customerEmail = Some (customerEmail fd), p_customerPhone = Some (customerPhone fd),
           p_vehicleMake = Some (vehicleMake fd), p_vehicleModel = Some (vehicleModel fd),
           p_vehicleYear = Some (vehicleYear fd), p_accidentDate = Some (accidentDate fd),
           p_accidentDescription = Some (accidentDescription fd),
           p_photos = Some ph, p_videos = Some vi, p_status = None,
           p_damageAssessments = Some assessments, p_totalEstimatedCost = Some totalCost,
           p_repairShopId = None, p_aiAnalysisComplete = Some analysed,
           p_processingTime = None, p_claim_id = None, p_createdAt = None,
           p_updatedAt = Some t_now \<rparr>)"

definition EditClaim_handleSubmit ::
  "Claim option \<Rightarrow> FormData \<Rightarrow> string list \<Rightarrow> string list \<Rightarrow> DamageAssessment list \<Rightarrow>
   string js_set \<Rightarrow> bool \<Rightarrow> timestamp \<Rightarrow> ClaimsAction list" where
  "EditClaim_handleSubmit existingClaim fd ph vi assessments approved analysed t_now =
     (if \<not> validateForm fd then []
      else (case existingClaim of
              None \<Rightarrow> []
            | Some existing \<Rightarrow>
                [updateClaim (claim_id existing)
                   (EditClaim_updatedClaim fd ph vi assessments approved analysed t_now)]))"

text \<open>
  \<^verbatim>\<open>handleStatusUpdate\<close> of \<^verbatim>\<open>ClaimDetails.tsx\<close>, with
  \<^verbatim>\<open>processingTime: claim.processingTime || 3\<close> (\<^verbatim>\<open>undefined\<close> and the numbers of
  \<open>falsy\<close> give 3),
  and the statuses that the buttons of the card \<^verbatim>\<open>Claim Actions\<close> pass to it: the card
  renders its buttons under \<^verbatim>\<open>claim.status === 'pending'\<close> and
  \<^verbatim>\<open>claim.status === 'processing'\<close>, and a line of text for the two other statuses.
\<close>

definition handleStatusUpdate :: "Claim \<Rightarrow> Status \<Rightarrow> ClaimsAction" where
  "handleStatusUpdate claim newStatus =
     updateClaim (claim_id claim)
       (no_keys\<lparr> p_status := Some newStatus,
                 p_processingTime := Some (Some (case processingTime claim of
                     None \<Rightarrow> Num 3
                   | Some t \<Rightarrow> if falsy t then Num 3 else t)) \<rparr>)"

fun claim_actions :: "Status \<Rightarrow> Status list" where
  "claim_actions Pending = [Processing, Approved, Rejected]"
| "claim_actions Processing = [Approved, Rejected]"
| "claim_actions Approved = []"
| "claim_actions Rejected = []"

section \<open>Reachable states and scenarios\<close>

text \<open>
  The states that the operations of the provider reach from \<open>initialState\<close>, together
  with the latest reading of the clock so far. The clock does not run backwards: each
  reading is at least the previous one. An update is taken here with a patch that has
  no key \<^verbatim>\<open>createdAt\<close>.
\<close>

inductive reachable :: "timestamp \<Rightarrow> ClaimsState \<Rightarrow> bool" where
  start: "reachable t initialState"
| add: "reachable t state \<Longrightarrow> t \<le> t_created \<Longrightarrow> t_created \<le> t_updated \<Longrightarrow>
    reachable t_updated
      (claimsReducer now_at state (addClaim claimData date_now suffix t_created t_updated))"
| update: "reachable t state \<Longrightarrow> p_createdAt updates = None \<Longrightarrow> t \<le> t' \<Longrightarrow>
    (\<forall>k < length (claims state). t \<le> now_at k \<and> now_at k \<le> t') \<Longrightarrow>
    reachable t' (claimsReducer now_at state (updateClaim i updates))"
| save: "reachable t state \<Longrightarrow>
    reachable t (claimsReducer now_at state (saveInProgressClaim d))"
| delete: "reachable t state \<Longrightarrow>
    reachable t (claimsReducer now_at state (deleteInProgressClaim j))"

text \<open>
  Concrete data: a valid form, three assessments that cost 100, 200 and 300, a draft
  with the id \<^verbatim>\<open>s1\<close>, a draft \<^verbatim>\<open>s2\<close> whose form data has a key that holds
  \<^verbatim>\<open>undefined\<close>, and the states of a few short runs.
\<close>

definition scenario_form :: FormData where
  "scenario_form = \<lparr> policyNumber = ''POL-1'', customerName = ''A'',
     customerEmail = ''a@example.com'', customerPhone = ''555-0100'', vehicleMake = ''Toyota'',
     vehicleModel = ''Camry'', vehicleYear = Num 2022, accidentDate = ''2024-01-15'',
     accidentDescription = ''Rear-end collision'' \<rparr>"

definition assessment_of :: "string \<Rightarrow> rat \<Rightarrow> DamageAssessment" where
  "assessment_of i cost = \<lparr> assessment_id = i, damage_type = Dent, severity = Moderate,
     location = ''Front bumper'', estimatedCost = Num cost, confidence = Num (92 / 100) \<rparr>"

definition three_assessments :: "DamageAssessment list" where
  "three_assessments =
     [assessment_of ''a1'' 100, assessment_of ''a2'' 200, assessment_of ''a3'' 300]"

definition scenario_data :: ClaimData where
  "scenario_data =
     NewClaim_newClaim scenario_form [] [] three_assessments [''a1'', ''a3''] True False"

definition scenario_draft :: "string js_set \<Rightarrow> bool \<Rightarrow> InProgressClaim" where
  "scenario_draft approved analysed = \<lparr> draft_id = ''s1'', formData = no_keys,
     draft_photos = [], draft_videos = [], draft_damageAssessments = [],
     analysisComplete = analysed, approvedAssessments = approved, lastSaved = 7 \<rparr>"

definition just_added :: ClaimsState where
  "just_added =
     claimsReducer (\<lambda>k. 1000) initialState (addClaim scenario_data 1000 ''k3j9x2m1q'' 1000 1000)"

definition added_twice :: ClaimsState where
  "added_twice =
     claimsReducer (\<lambda>k. 5)
       (claimsReducer (\<lambda>k. 5) initialState
          (addClaim (scenario_data\<lparr> status := Approved \<rparr>) 5 ''k3j9x2m1q'' 5 6))
       (addClaim (scenario_data\<lparr> status := Approved \<rparr>) 5 ''k3j9x2m1q'' 5 6)"

definition updated_same_ms :: ClaimsState where
  "updated_same_ms = claimsReducer (\<lambda>k. 1000) just_added
     (updateClaim ''claim_1000_k3j9x2m1q'' (no_keys\<lparr> p_status := Some Processing \<rparr>))"

definition updated_later :: ClaimsState where
  "updated_later = claimsReducer (\<lambda>k. 2000) just_added
     (updateClaim ''claim_1000_k3j9x2m1q''
        (no_keys\<lparr> p_status := Some Approved, p_updatedAt := Some 1 \<rparr>))"

definition created_moved :: ClaimsState where
  "created_moved = claimsReducer (\<lambda>k. 2000) just_added
     (updateClaim ''claim_1000_k3j9x2m1q'' (no_keys\<lparr> p_createdAt := Some 9999 \<rparr>))"

definition approved_state :: ClaimsState where
  "approved_state = claimsReducer (\<lambda>k. 2000) just_added
     (handleStatusUpdate (claims just_added ! 0) Approved)"

definition reopened :: ClaimsState where
  "reopened = claimsReducer (\<lambda>k. 3000) approved_state
     (updateClaim ''claim_1000_k3j9x2m1q'' (no_keys\<lparr> p_status := Some Pending \<rparr>))"

definition submitted_all :: ClaimsState where
  "submitted_all = dispatch_all (\<lambda>k. 1000) initialState
     (NewClaim_handleSubmit scenario_form [] [] three_assessments [''a1'', ''a2'', ''a3'']
        True False 1000 ''k3j9x2m1q'' 1000 1000)"

definition submitted_two :: ClaimsState where
  "submitted_two = dispatch_all (\<lambda>k. 1000) initialState
     (NewClaim_handleSubmit scenario_form [] [] three_assessments [''a1'', ''a3'']
        True False 1000 ''k3j9x2m1q'' 1000 1000)"

definition edited_two :: ClaimsState where
  "edited_two = dispatch_all (\<lambda>k. 2000) submitted_all
     (EditClaim_handleSubmit (getClaim submitted_all ''claim_1000_k3j9x2m1q'')
        scenario_form [] [] three_assessments [''a1'', ''a3''] True 2000)"

definition with_draft :: ClaimsState where
  "with_draft = claimsReducer (\<lambda>k. 1000) just_added
     (saveInProgressClaim (scenario_draft [''a'', ''b''] True))"

definition saved_twice :: ClaimsState where
  "saved_twice = claimsReducer (\<lambda>k. 1000) with_draft
     (saveInProgressClaim (scenario_draft [''c''] False))"

definition second_draft :: InProgressClaim where
  "second_draft = (scenario_draft [''b'', ''c''] True)\<lparr> draft_id := ''s2'',
     formData := no_keys\<lparr> p_policyNumber := Some ''POL-1'', p_repairShopId := Some None \<rparr> \<rparr>"

definition with_drafts :: ClaimsState where
  "with_drafts = claimsReducer (\<lambda>k. 1000) with_draft (saveInProgressClaim second_draft)"

definition nan_state :: ClaimsState where
  "nan_state = claimsReducer (\<lambda>k. 1000) initialState
     (addClaim (scenario_data\<lparr> totalEstimatedCost := NaN \<rparr>) 1000 ''k3j9x2m1q'' 1000 1000)"

definition empty_storage :: Storage where
  "empty_storage = \<lparr> claims_item = None, in_progress_item = None \<rparr>"



definition reloaded :: ClaimsState where
  "reloaded = load (\<lambda>k. 0) (fst (saveToStorage (\<lambda>key. True) with_drafts empty_storage))"

section \<open>Auxiliary facts\<close>

lemma set_foldl_set_add: "set (foldl set_add acc xs) = set acc \<union> set xs"
  by (induction xs arbitrary: acc) (auto simp: set_add_def)

lemma set_new_Set: "set (new_Set xs) = set xs"
  by (simp add: new_Set_def set_foldl_set_add)

lemma foldl_set_add_distinct: "distinct (acc @ xs) \<Longrightarrow> foldl set_add acc xs = acc @ xs"
  by (induction xs arbitrary: acc) (auto simp: set_add_def)

lemma new_Set_distinct: "distinct xs \<Longrightarrow> new_Set xs = xs"
  using foldl_set_add_distinct [of "[]" xs] by (simp add: new_Set_def)

lemma distinct_foldl_set_add: "distinct acc \<Longrightarrow> distinct (foldl set_add acc xs)"
  by (induction xs arbitrary: acc) (auto simp: set_add_def)

lemma distinct_new_Set: "distinct (new_Set xs)"
  by (simp add: new_Set_def distinct_foldl_set_add)

subsection \<open>Numbers\<close>

lemma round_half_even_of_int: "round_half_even (of_int n) = n"
  by (simp add: round_half_even_def)

lemma round_half_even_eval:
  "of_int f \<le> s \<Longrightarrow> s < of_int f + 1 \<Longrightarrow>
   round_half_even s =
     (if s - of_int f < 1 / 2 then f
      else if 1 / 2 < s - of_int f then f + 1 else if even f then f else f + 1)"
  by (simp add: round_half_even_def floor_unique Let_def)

lemma pow2_nonneg: "0 \<le> k \<Longrightarrow> pow2 k = 2 ^ nat k"
  by (simp add: pow2_def)

lemma pow2_neg: "k \<le> 0 \<Longrightarrow> pow2 k = 1 / 2 ^ nat (- k)"
  by (simp add: pow2_def)

lemma pow2_powi: "pow2 k = 2 powi k"
  by (simp add: pow2_def power_int_def inverse_eq_divide power_one_over)

lemma pow2_pos: "0 < pow2 k"
  by (simp add: pow2_def)

lemma pow2_diff: "pow2 (m - n) = pow2 m / pow2 n"
  by (simp add: pow2_powi power_int_diff)

lemma pow2_less_iff: "pow2 m < pow2 n \<longleftrightarrow> m < n"
proof
  assume l: "pow2 m < pow2 n"
  show "m < n"
  proof (rule ccontr)
    assume "\<not> m < n"
    then have "n \<le> m" by simp
    then have "pow2 n \<le> pow2 m"
      unfolding pow2_powi by (rule power_int_increasing) simp
    with l show False by simp
  qed
next
  assume "m < n"
  then show "pow2 m < pow2 n"
    unfolding pow2_powi by (rule power_int_strict_increasing) simp
qed

lemma pow2_of_bitlen:
  "1 \<le> b \<Longrightarrow> pow2 (b - 1) = of_int (2 ^ nat (b - 1))"
  "0 \<le> b \<Longrightarrow> pow2 b = of_int (2 ^ nat b)"
  by (simp_all add: pow2_def)

text \<open>The exponent that \<open>to_double\<close> computes is the binary exponent of its argument.\<close>

lemma exponent_bounds:
  assumes "0 < a"
  defines "d \<equiv> bitlen (fst (quotient_of a)) - bitlen (snd (quotient_of a))"
  defines "e \<equiv> (if pow2 d \<le> a then d else d - 1)"
  shows "pow2 e \<le> a \<and> a < pow2 (e + 1)"
proof -
  obtain p q where pq: "quotient_of a = (p, q)" by (cases "quotient_of a")
  then have q0: "0 < q" by (rule quotient_of_denom_pos)
  from pq have a: "a = of_int p / of_int q" by (rule quotient_of_div)
  with assms(1) q0 have p0: "0 < p"
    by (simp add: zero_less_divide_iff)
  let ?bp = "bitlen p" and ?bq = "bitlen q"
  from p0 have bp: "2 ^ nat (?bp - 1) \<le> p" "p < 2 ^ nat ?bp" and bp1: "1 \<le> ?bp"
    using bitlen_bounds [of p] by (simp_all add: bitlen_alt_def)
  from q0 have bq: "2 ^ nat (?bq - 1) \<le> q" "q < 2 ^ nat ?bq" and bq1: "1 \<le> ?bq"
    using bitlen_bounds [of q] by (simp_all add: bitlen_alt_def)
  have d: "d = ?bp - ?bq" by (simp add: d_def pq)
  have P: "pow2 (?bp - 1) \<le> of_int p" "of_int p < pow2 ?bp"
    using bp bp1 by (simp_all only: pow2_of_bitlen of_int_le_iff of_int_less_iff)
  have Q: "pow2 (?bq - 1) \<le> of_int q" "of_int q < pow2 ?bq"
    using bq bq1 by (simp_all only: pow2_of_bitlen of_int_le_iff of_int_less_iff)
  have qpos: "(0::rat) < of_int q" using q0 by simp
  have upper: "a < pow2 (d + 1)"
  proof -
    have "a < pow2 ?bp / of_int q"
      unfolding a using P(2) qpos by (simp add: divide_strict_right_mono)
    also have "\<dots> \<le> pow2 ?bp / pow2 (?bq - 1)"
      using Q(1) pow2_pos [of "?bq - 1"] pow2_pos [of ?bp]
      by (simp add: frac_le)
    also have "\<dots> = pow2 (d + 1)"
      by (simp add: d pow2_diff [symmetric] algebra_simps)
    finally show ?thesis .
  qed
  have lower: "pow2 (d - 1) \<le> a"
  proof -
    have "pow2 (d - 1) = pow2 (?bp - 1) / pow2 ?bq"
      by (simp add: d pow2_diff [symmetric] algebra_simps)
    also have "\<dots> \<le> of_int p / pow2 ?bq"
      using P(1) pow2_pos [of ?bq] by (simp add: divide_right_mono)
    also have "\<dots> \<le> of_int p / of_int q"
      using Q(2) qpos p0 by (simp add: frac_le)
    finally show ?thesis by (simp add: a)
  qed
  show ?thesis
    using upper lower by (auto simp: e_def)
qed

lemma exponent_unique:
  assumes "pow2 e \<le> a" "a < pow2 (e + 1)" "pow2 e' \<le> a" "a < pow2 (e' + 1)"
  shows "e = e'"
proof -
  from assms(1,4) have "pow2 e < pow2 (e' + 1)" by simp
  then have "e < e' + 1" by (simp only: pow2_less_iff)
  moreover from assms(3,2) have "pow2 e' < pow2 (e + 1)" by simp
  then have "e' < e + 1" by (simp only: pow2_less_iff)
  ultimately show ?thesis by simp
qed

text \<open>
  \<open>to_double\<close> at a positive argument, from its binary exponent \<open>e\<close> and the whole
  part \<open>f\<close> of the scaled argument.
\<close>

lemma to_double_eval:
  assumes "0 < x" and "pow2 e \<le> x" and "x < pow2 (e + 1)"
    and "k = max e (- 1022) - 52" and "of_int f \<le> x / pow2 k" and "x / pow2 k < of_int f + 1"
  shows "to_double x =
     (let n = (if x / pow2 k - of_int f < 1 / 2 then f
               else if 1 / 2 < x / pow2 k - of_int f then f + 1
               else if even f then f else f + 1)
      in if 2 ^ 1024 \<le> of_int n * pow2 k then Infinity else Num (of_int n * pow2 k))"
proof -
  define d where "d = bitlen (fst (quotient_of x)) - bitlen (snd (quotient_of x))"
  define e' where "e' = (if pow2 d \<le> x then d else d - 1)"
  have "pow2 e' \<le> x \<and> x < pow2 (e' + 1)"
    unfolding e'_def d_def by (rule exponent_bounds [OF assms(1)])
  with assms(2,3) have e: "e' = e"
    using exponent_unique by blast
  have ee: "(if pow2 (bitlen (fst (quotient_of x)) - bitlen (snd (quotient_of x))) \<le> x
       then bitlen (fst (quotient_of x)) - bitlen (snd (quotient_of x))
       else bitlen (fst (quotient_of x)) - bitlen (snd (quotient_of x)) - 1) = e"
    using e unfolding e'_def d_def .
  have pos: "x \<noteq> 0" "\<bar>x\<bar> = x" using assms(1) by simp_all
  have "to_double x =
     (if 2 ^ 1024 \<le> of_int (round_half_even (x / pow2 k)) * pow2 k then Infinity
      else Num (of_int (round_half_even (x / pow2 k)) * pow2 k))"
    unfolding to_double_def Let_def
    by (simp only: pos ee assms(4) [symmetric] assms(1) if_True if_False)
  then show ?thesis
    by (simp only: round_half_even_eval [OF assms(5,6)] Let_def)
qed

text \<open>A whole number below \<open>2 ^ 53\<close> is a double, and two of them are added exactly.\<close>

lemma to_double_pos_int:
  assumes "0 < i" and "i < 2 ^ 53"
  shows "to_double (of_int i) = Num (of_int i)"
proof -
  let ?b = "bitlen i"
  from assms(1) have bounds: "2 ^ nat (?b - 1) \<le> i" "i < 2 ^ nat ?b"
    using bitlen_bounds [of i] by simp_all
  from assms(1) have b1: "1 \<le> ?b"
    by (simp add: bitlen_alt_def)
  have lt: "(2::int) ^ nat (?b - 1) < 2 ^ 53"
    using bounds(1) assms(2) by linarith
  have "nat (?b - 1) < 53"
    by (rule power_less_imp_less_exp [OF _ lt]) simp
  with b1 have b53: "?b \<le> 53" by linarith
  define k where "k = ?b - 1 - 52"
  have k0: "k \<le> 0" using b53 by (simp add: k_def)
  have low: "pow2 (?b - 1) \<le> of_int i"
    using bounds(1) b1 by (simp only: pow2_of_bitlen of_int_le_iff)
  have high: "of_int i < pow2 (?b - 1 + 1)"
    using bounds(2) b1 by (simp add: pow2_of_bitlen(2) del: of_int_power)
  have m: "k = max (?b - 1) (- 1022) - 52"
    using b1 by (simp add: k_def max_def)
  have scaled: "of_int i / pow2 k = of_int (i * 2 ^ nat (- k))"
    using k0 by (simp add: pow2_neg)
  have unscaled: "of_int (i * 2 ^ nat (- k)) * pow2 k = (of_int i :: rat)"
    using k0 by (simp add: pow2_neg)
  have small: "\<not> (2::rat) ^ 1024 \<le> of_int i"
  proof -
    have "(of_int i :: rat) < of_int (2 ^ 53)"
      using assms(2) by (simp only: of_int_less_iff)
    also have "\<dots> \<le> 2 ^ 1024" by simp
    finally show ?thesis by simp
  qed
  have pos: "(0::rat) < of_int i" using assms(1) by simp
  have le: "of_int (i * 2 ^ nat (- k)) \<le> of_int i / pow2 k"
    by (simp only: scaled order_refl)
  have less: "of_int i / pow2 k < of_int (i * 2 ^ nat (- k)) + 1"
    unfolding scaled by linarith
  have frac: "of_int i / pow2 k - of_int (i * 2 ^ nat (- k)) < 1 / 2"
    unfolding scaled by linarith
  show ?thesis
    unfolding to_double_eval [OF pos low high m le less] Let_def
    by (simp only: frac if_True unscaled small if_False)
qed

lemma to_double_nat: "n < 2 ^ 53 \<Longrightarrow> to_double (of_nat n) = Num (of_nat n)"
proof (cases "n = 0")
  case True
  then show ?thesis by (simp add: to_double_def)
next
  case False
  assume "n < 2 ^ 53"
  then have "int n < 2 ^ 53"
    by (metis of_nat_less_iff of_nat_numeral of_nat_power)
  with False to_double_pos_int [of "int n"] show ?thesis by simp
qed

lemma js_add_whole:
  "a + b < 2 ^ 53 \<Longrightarrow> js_add (Num (of_nat a)) (Num (of_nat b)) = Num (of_nat (a + b))"
proof -
  assume s: "a + b < 2 ^ 53"
  then have "a < 2 ^ 53" "b < 2 ^ 53" by simp_all
  then have "js_add (Num (of_nat a)) (Num (of_nat b)) = to_double (of_nat a + of_nat b)"
    by (simp add: js_add_def to_double_nat)
  also have "\<dots> = to_double (of_nat (a + b))" by simp
  also have "\<dots> = Num (of_nat (a + b))" using s by (rule to_double_nat)
  finally show ?thesis .
qed

lemma foldl_cost_whole:
  "map estimatedCost xs = map (\<lambda>c. Num (of_nat c)) cs \<Longrightarrow> acc + sum_list cs < 2 ^ 53 \<Longrightarrow>
   foldl (\<lambda>sum a. js_add sum (estimatedCost a)) (Num (of_nat acc)) xs
     = Num (of_nat (acc + sum_list cs))"
proof (induction xs arbitrary: cs acc)
  case Nil
  then show ?case by simp
next
  case (Cons x xs)
  then obtain c cs' where cs: "cs = c # cs'" "estimatedCost x = Num (of_nat c)"
    "map estimatedCost xs = map (\<lambda>c. Num (of_nat c)) cs'"
    by (cases cs) auto
  from Cons.prems(2) cs(1) have b: "acc + c < 2 ^ 53" "(acc + c) + sum_list cs' < 2 ^ 53"
    by simp_all
  have "foldl (\<lambda>sum a. js_add sum (estimatedCost a)) (Num (of_nat acc)) (x # xs)
      = foldl (\<lambda>sum a. js_add sum (estimatedCost a)) (Num (of_nat (acc + c))) xs"
    by (simp add: cs(2) js_add_whole [OF b(1)])
  also have "\<dots> = Num (of_nat ((acc + c) + sum_list cs'))"
    by (rule Cons.IH [OF cs(3) b(2)])
  finally show ?case by (simp add: cs(1) add.assoc)
qed

text \<open>
  The total that \<^verbatim>\<open>reduce\<close> computes is the sum of the costs when the costs are whole
  numbers whose sum stays below \<open>2 ^ 53\<close>.
\<close>

lemma reduce_cost_whole:
  "map estimatedCost xs = map (\<lambda>c. Num (of_nat c)) cs \<Longrightarrow> sum_list cs < 2 ^ 53 \<Longrightarrow>
   reduce_cost xs = Num (of_nat (sum_list cs))"
  using foldl_cost_whole [of xs cs 0] by (simp add: reduce_cost_def)

lemma finite_number_nat: "n < 2 ^ 53 \<Longrightarrow> finite_number (Num (of_nat n))"
  by (simp add: to_double_nat)

text \<open>Beyond that the sum is rounded, to the even neighbour at a tie, or overflows.\<close>

lemma to_double_zero: "to_double 0 = Num 0"
  by (simp add: to_double_def)

lemma to_double_one: "to_double 1 = Num 1"
  using to_double_pos_int [of 1] by simp

lemma to_double_2_53: "to_double (2 ^ 53) = Num (2 ^ 53)"
  using to_double_eval [of "2 ^ 53" 53 1 "2 ^ 52"] by (simp add: pow2_def)

lemma to_double_2_53_plus_1: "to_double (2 ^ 53 + 1) = Num (2 ^ 53)"
  using to_double_eval [of "2 ^ 53 + 1" 53 1 "2 ^ 52"] by (simp add: pow2_def)

lemma to_double_2_53_plus_3: "to_double (2 ^ 53 + 3) = Num (2 ^ 53 + 4)"
  using to_double_eval [of "2 ^ 53 + 3" 53 1 "2 ^ 52 + 1"] by (simp add: pow2_def)

lemma to_double_2_1023: "to_double (2 ^ 1023) = Num (2 ^ 1023)"
  using to_double_eval [of "2 ^ 1023" 1023 971 "2 ^ 52"] by (simp add: pow2_def)

lemma to_double_2_1024: "to_double (2 ^ 1024) = Infinity"
  using to_double_eval [of "2 ^ 1024" 1024 972 "2 ^ 52"] by (simp add: pow2_def)

lemma to_double_tenth: "to_double (1 / 10) = Num (3602879701896397 / 2 ^ 55)"
  using to_double_eval [of "1 / 10" "- 4" "- 56" 7205759403792793] by (simp add: pow2_def)

lemma to_double_fifth: "to_double (2 / 10) = Num (3602879701896397 / 2 ^ 54)"
  using to_double_eval [of "2 / 10" "- 3" "- 55" 7205759403792793] by (simp add: pow2_def)

lemma to_double_sum_tenth_fifth:
  "to_double (3602879701896397 / 2 ^ 55 + 3602879701896397 / 2 ^ 54)
     = Num (5404319552844596 / 2 ^ 54)"
  using to_double_eval [of "3602879701896397 / 2 ^ 55 + 3602879701896397 / 2 ^ 54"
      "- 2" "- 54" 5404319552844595]
  by (simp add: pow2_def)

lemma js_add_rounds_to_even: "js_add (Num (2 ^ 53)) (Num 1) = Num (2 ^ 53)"
  by (simp add: js_add_def to_double_2_53 [simplified] to_double_one
      to_double_2_53_plus_1 [simplified])

lemma js_add_overflows: "js_add (Num (2 ^ 1023)) (Num (2 ^ 1023)) = Infinity"
  by (simp add: js_add_def to_double_2_1023 [simplified] to_double_2_1024 [simplified])

lemma js_add_fractions: "js_add (Num (1 / 10)) (Num (2 / 10)) = Num (5404319552844596 / 2 ^ 54)"
  using to_double_sum_tenth_fifth
  by (simp add: js_add_def to_double_tenth [simplified] to_double_fifth [simplified])

lemma js_add_not_finite:
  "js_add NaN (Num 1) = NaN" "js_add Infinity Neg_Infinity = NaN"
  "js_add Infinity (Num 1) = Infinity" "js_add Null (Num 1) = Num 1"
  by (simp_all add: js_add_def to_double_one)

lemma reduce_cost_rounds:
  "reduce_cost [assessment_of ''a1'' (2 ^ 53), assessment_of ''a2'' 1] = Num (2 ^ 53)"
proof -
  have "js_add (Num 0) (Num (2 ^ 53)) = Num (2 ^ 53)"
    by (simp add: js_add_def to_double_zero to_double_2_53 [simplified])
  then show ?thesis
    by (simp add: reduce_cost_def assessment_of_def js_add_rounds_to_even [simplified])
qed

lemma finite_confidence: "finite_number (Num (92 / 100))"
  using to_double_eval [of "92 / 100" "- 1" "- 53" 8286623314361712] by (simp add: pow2_def)

text \<open>A finite number comes back from JSON as it was.\<close>

lemma json_number_finite: "finite_number n \<Longrightarrow> json_number n = n"
  by (cases n) (auto split: number.splits)

lemma json_assessment_finite: "finite_assessment a \<Longrightarrow> json_assessment a = a"
  by (simp add: finite_assessment_def json_assessment_def json_number_finite)

lemma json_claim_finite: "finite_claim c \<Longrightarrow> json_claim c = c"
proof -
  assume f: "finite_claim c"
  then have "map json_assessment (damageAssessments c) = damageAssessments c"
    by (simp add: finite_claim_def list_all_iff map_idI json_assessment_finite)
  moreover from f have "map_option json_number (processingTime c) = processingTime c"
    by (cases "processingTime c") (simp_all add: finite_claim_def json_number_finite)
  ultimately show ?thesis
    using f by (simp add: json_claim_def finite_claim_def json_number_finite)
qed

subsection \<open>The reducer\<close>

lemma update_claim_at_other: "claim_id c \<noteq> i \<Longrightarrow> update_claim_at now_at i u (k, c) = c"
  by (simp add: update_claim_at_def)

lemma update_claim_at_match:
  "claim_id c = i \<Longrightarrow> update_claim_at now_at i u (k, c) = (spread c u)\<lparr> updatedAt := now_at k \<rparr>"
  by (simp add: update_claim_at_def)

lemma map_update_no_match:
  "i \<notin> claim_id ` set cs \<Longrightarrow> map (update_claim_at now_at i u) (enumerate n cs) = cs"
  by (induction cs arbitrary: n) (auto simp: update_claim_at_other)

lemma length_after_update:
  "length (claims (claimsReducer now_at state (updateClaim i updates))) = length (claims state)"
  by (simp add: updateClaim_def)

lemma nth_after_update:
  "k < length (claims state) \<Longrightarrow>
   claims (claimsReducer now_at state (updateClaim i updates)) ! k =
     update_claim_at now_at i updates (k, claims state ! k)"
  by (simp add: updateClaim_def nth_enumerate_eq)

lemma claims_after_add:
  "claims (claimsReducer now_at state (addClaim claimData date_now suffix t_created t_updated)) =
     ClaimData.extend claimData (Claim.fields (generate_id date_now suffix) t_created t_updated)
       # claims state"
  by (simp add: addClaim_def)

lemma truncate_extend: "ClaimData.truncate (ClaimData.extend (d :: ClaimData) m) = d"
  by (simp add: ClaimData.defs)

lemma createdAt_spread: "p_createdAt u = None \<Longrightarrow> createdAt (spread c u) = createdAt c"
  by (simp add: spread_def overwrite_def)

lemma status_spread: "p_status u = None \<Longrightarrow> status (spread c u) = status c"
  by (simp add: spread_def overwrite_def)

lemma status_spread_Some: "p_status u = Some st \<Longrightarrow> status (spread c u) = st"
  by (simp add: spread_def overwrite_def)

lemma status_update_claim_at:
  "p_status u = None \<Longrightarrow> status (update_claim_at now_at i u kc) = status (snd kc)"
  by (cases kc) (simp add: update_claim_at_def status_spread)

lemma map_status_update:
  "p_status u = None \<Longrightarrow>
   map (status \<circ> update_claim_at now_at i u) (enumerate n cs) = map status cs"
  by (induction cs arbitrary: n) (simp_all add: status_update_claim_at)

subsection \<open>The generated id determines the clock reading and the suffix\<close>

lemma of_char_digit_char: "d < 10 \<Longrightarrow> of_char (digit_char d) = 48 + d"
  by (simp add: digit_char_def)

lemma digit_char_inj: "a < 10 \<Longrightarrow> b < 10 \<Longrightarrow> digit_char a = digit_char b \<Longrightarrow> a = b"
  using of_char_digit_char [of a] of_char_digit_char [of b] by (metis add_left_cancel)

lemma digit_char_not_underscore: "d < 10 \<Longrightarrow> digit_char d \<noteq> CHR ''_''"
  using of_char_digit_char [of d] by auto

lemma show_nat_not_Nil: "show_nat n \<noteq> []"
  by (subst show_nat.simps) simp

lemma underscore_notin_show_nat: "CHR ''_'' \<notin> set (show_nat n)"
proof (induction n rule: show_nat.induct)
  case (1 n)
  show ?case
  proof (cases "n < 10")
    case True
    then show ?thesis
      by (subst show_nat.simps) (simp add: digit_char_not_underscore [symmetric])
  next
    case False
    have "n mod 10 < 10" by simp
    with False 1 show ?thesis
      by (subst show_nat.simps) (simp add: digit_char_not_underscore [symmetric, of "n mod 10"])
  qed
qed

lemma show_nat_inj: "show_nat a = show_nat b \<Longrightarrow> a = b"
proof (induction a arbitrary: b rule: show_nat.induct)
  case (1 n)
  show ?case
  proof (cases "n < 10")
    case small: True
    show ?thesis
    proof (cases "b < 10")
      case True
      with small 1(2) show ?thesis
        by (simp add: show_nat.simps [of n] show_nat.simps [of b] digit_char_inj)
    next
      case False
      with small 1(2) show ?thesis
        by (simp add: show_nat.simps [of n] show_nat.simps [of b]
            show_nat_not_Nil show_nat_not_Nil [symmetric])
    qed
  next
    case big: False
    show ?thesis
    proof (cases "b < 10")
      case True
      with big 1(2) show ?thesis
        by (simp add: show_nat.simps [of n] show_nat.simps [of b]
            show_nat_not_Nil show_nat_not_Nil [symmetric])
    next
      case False
      with big 1(2) have eq: "show_nat (n div 10) = show_nat (b div 10)"
        and d: "digit_char (n mod 10) = digit_char (b mod 10)"
        by (simp_all add: show_nat.simps [of n] show_nat.simps [of b])
      from 1(1) [OF big eq] have "n div 10 = b div 10" .
      moreover from d have "n mod 10 = b mod 10"
        by (intro digit_char_inj) simp_all
      ultimately show ?thesis
        by (metis div_mult_mod_eq)
    qed
  qed
qed

lemma split_at_separator:
  "xs @ sep # r = ys @ sep # r' \<Longrightarrow> sep \<notin> set xs \<Longrightarrow> sep \<notin> set ys \<Longrightarrow> xs = ys \<and> r = r'"
proof (induction xs arbitrary: ys)
  case Nil
  then show ?case by (cases ys) auto
next
  case (Cons x xs)
  then show ?case by (cases ys) auto
qed

lemma generate_id_inj:
  "generate_id t r = generate_id t' r' \<Longrightarrow> t = t' \<and> r = r'"
  using split_at_separator [of "show_nat t" "CHR ''_''" r "show_nat t'" r']
  by (auto simp: generate_id_def underscore_notin_show_nat dest: show_nat_inj)

lemma generate_id_not_Nil: "generate_id t r \<noteq> []"
  by (simp add: generate_id_def)

subsection \<open>The scenarios\<close>

lemma generate_id_1000: "generate_id 1000 ''k3j9x2m1q'' = ''claim_1000_k3j9x2m1q''"
  by code_simp

lemma claims_just_added:
  "claims just_added =
     [ClaimData.extend scenario_data (Claim.fields ''claim_1000_k3j9x2m1q'' 1000 1000)]"
  by (simp add: just_added_def claims_after_add generate_id_1000 initialState_def)

lemma valid_scenario_form: "validateForm scenario_form"
  by (simp add: validateForm_def scenario_form_def)

subsection \<open>Storage\<close>

lemma distinct_from_storage: "distinct (approvedAssessments (from_storage d))"
  by (simp add: from_storage_def distinct_new_Set)

text \<open>
  An array of the storage that repeats an id is read as the set of its ids, and a
  missing array as the empty set.
\<close>

lemma from_storage_rebuilds_set:
  "approvedAssessments
     (from_storage \<lparr> draft_id = ''s3'', formData = no_keys, draft_photos = [], draft_videos = [],
        draft_damageAssessments = [], analysisComplete = False,
        approvedAssessments = Some [''a'', ''b'', ''a''], lastSaved = 7 \<rparr>) = [''a'', ''b'']"
  "approvedAssessments
     (from_storage \<lparr> draft_id = ''s3'', formData = no_keys, draft_photos = [], draft_videos = [],
        draft_damageAssessments = [], analysisComplete = False,
        approvedAssessments = None, lastSaved = 7 \<rparr>) = []"
  by (simp_all add: from_storage_def new_Set_def set_add_def)

lemma loaded_drafts_are_sets:
  "\<forall>d \<in> set (inProgressClaims (load now_at storage)). distinct (approvedAssessments d)"
  by (cases "claims_item storage" rule: truthy.cases;
      cases "in_progress_item storage" rule: truthy.cases)
     (simp_all add: load_def dispatch_all_def loadFromStorage_def load_claims_step_def
        load_in_progress_step_def initialState_def distinct_from_storage)

lemma read_back_draft:
  "draft_id (from_storage (json_draft (for_storage d))) = draft_id d"
  "formData (from_storage (json_draft (for_storage d))) = json_partial (formData d)"
  "draft_photos (from_storage (json_draft (for_storage d))) = draft_photos d"
  "draft_videos (from_storage (json_draft (for_storage d))) = draft_videos d"
  "draft_damageAssessments (from_storage (json_draft (for_storage d)))
     = map json_assessment (draft_damageAssessments d)"
  "analysisComplete (from_storage (json_draft (for_storage d))) = analysisComplete d"
  "lastSaved (from_storage (json_draft (for_storage d))) = lastSaved d"
  "set (approvedAssessments (from_storage (json_draft (for_storage d))))
     = set (approvedAssessments d)"
  by (simp_all add: from_storage_def json_draft_def for_storage_def Array_from_def set_new_Set)

lemma load_after_save:
  assumes "accepts Claims_key" and "accepts In_progress_key"
  shows "loadFromStorage (fst (saveToStorage accepts state storage)) =
     ([LOAD_CLAIMS (map json_claim (claims state)),
       LOAD_IN_PROGRESS
         (map from_storage (map json_draft (map for_storage (inProgressClaims state))))], [])"
  using assms
  by (simp add: saveToStorage_def setItem_claims_def setItem_in_progress_def loadFromStorage_def
      load_claims_step_def load_in_progress_step_def JSON_stringify_claims_def
      JSON_stringify_in_progress_def)

lemma save_refused:
  "\<not> accepts Claims_key \<Longrightarrow>
   saveToStorage accepts state storage = (storage, [''Error saving to localStorage:''])"
  by (simp add: saveToStorage_def setItem_claims_def)

lemma corrupt_claims_skip_drafts:
  "claims_item storage = Some Unparseable \<Longrightarrow>
   loadFromStorage storage = ([], [''Error loading from localStorage:''])"
  by (simp add: loadFromStorage_def load_claims_step_def)

lemma total_scenario_data: "totalEstimatedCost scenario_data = Num 400"
proof -
  have "map estimatedCost (approved_only three_assessments [''a1'', ''a3''])
      = map (\<lambda>c. Num (of_nat c)) [100, 300]"
    by (simp add: approved_only_def three_assessments_def assessment_of_def has_def)
  from reduce_cost_whole [OF this] show ?thesis
    by (simp add: scenario_data_def NewClaim_newClaim_def Let_def ClaimData.defs FormData.defs)
qed

lemma finite_just_added: "\<forall>c \<in> set (claims just_added). finite_claim c"
proof -
  have n: "finite_number (Num 100)" "finite_number (Num 300)" "finite_number (Num 400)"
    "finite_number (Num 2022)" "finite_number (Num 3)"
    using finite_number_nat [of 100] finite_number_nat [of 300] finite_number_nat [of 400]
      finite_number_nat [of 2022] finite_number_nat [of 3]
    by simp_all
  have rest: "vehicleYear scenario_data = Num 2022" "processingTime scenario_data = Some (Num 3)"
    "damageAssessments scenario_data = [assessment_of ''a1'' 100, assessment_of ''a3'' 300]"
    by (simp_all add: scenario_data_def NewClaim_newClaim_def Let_def ClaimData.defs
        FormData.defs scenario_form_def approved_only_def three_assessments_def
        assessment_of_def has_def)
  have q: "(92 / 100 :: rat) = 23 / 25" by simp
  have conf: "finite_number (Num (23 / 25))"
    using finite_confidence unfolding q .
  show ?thesis
    by (simp add: claims_just_added finite_claim_def ClaimData.defs Claim.defs rest
        total_scenario_data n finite_assessment_def assessment_of_def conf
        del: finite_number.simps)
qed

subsection \<open>Submission\<close>

lemma NewClaim_submission:
  assumes "validateForm fd"
  shows "claims (dispatch_all now_at state (NewClaim_handleSubmit fd ph vi assessments approved
            analysed isAnalyzing date_now suffix t_created t_updated)) =
         ClaimData.extend (NewClaim_newClaim fd ph vi assessments approved analysed isAnalyzing)
           (Claim.fields (generate_id date_now suffix) t_created t_updated) # claims state"
  using assms
  by (simp add: dispatch_all_def NewClaim_handleSubmit_def claims_after_add
      deleteInProgressClaim_def)

lemma NewClaim_newClaim_assessments:
  "damageAssessments (NewClaim_newClaim fd ph vi assessments approved analysed isAnalyzing) =
     filter (\<lambda>a. assessment_id a \<in> set approved) assessments
   \<and> totalEstimatedCost (NewClaim_newClaim fd ph vi assessments approved analysed isAnalyzing) =
     reduce_cost (filter (\<lambda>a. assessment_id a \<in> set approved) assessments)"
  by (simp add: NewClaim_newClaim_def Let_def approved_only_def has_def
      ClaimData.defs FormData.defs)

lemma EditClaim_patch:
  "p_damageAssessments (EditClaim_updatedClaim fd ph vi assessments approved analysed t_now) =
     Some assessments
   \<and> p_totalEstimatedCost (EditClaim_updatedClaim fd ph vi assessments approved analysed t_now) =
     Some (reduce_cost (filter (\<lambda>a. assessment_id a \<in> set approved) assessments))"
  by (simp add: EditClaim_updatedClaim_def Let_def approved_only_def has_def)

lemma scenario_costs:
  "reduce_cost (filter (\<lambda>a. assessment_id a \<in> set [''a1'', ''a3'']) three_assessments) = Num 400"
  "reduce_cost (filter (\<lambda>a. assessment_id a \<in> set [''a1'', ''a2'', ''a3'']) three_assessments)
     = Num 600"
proof -
  have "map estimatedCost (filter (\<lambda>a. assessment_id a \<in> set [''a1'', ''a3'']) three_assessments)
      = map (\<lambda>c. Num (of_nat c)) [100, 300]"
    by (simp add: three_assessments_def assessment_of_def)
  from reduce_cost_whole [OF this]
  show "reduce_cost (filter (\<lambda>a. assessment_id a \<in> set [''a1'', ''a3'']) three_assessments)
      = Num 400"
    by simp
  have "map estimatedCost
        (filter (\<lambda>a. assessment_id a \<in> set [''a1'', ''a2'', ''a3'']) three_assessments)
      = map (\<lambda>c. Num (of_nat c)) [100, 200, 300]"
    by (simp add: three_assessments_def assessment_of_def)
  from reduce_cost_whole [OF this]
  show "reduce_cost
        (filter (\<lambda>a. assessment_id a \<in> set [''a1'', ''a2'', ''a3'']) three_assessments) = Num 600"
    by simp
qed

subsection \<open>The invariant of the reachable states\<close>

lemma reachable_invariant:
  "reachable t state \<Longrightarrow>
   \<forall>c \<in> set (claims state). createdAt c \<le> updatedAt c \<and> updatedAt c \<le> t"
proof (induction rule: reachable.induct)
  case (start t)
  show ?case by (simp add: initialState_def)
next
  case (add t state t_created t_updated now_at claimData date_now suffix)
  then show ?case
    by (auto simp: claims_after_add ClaimData.defs Claim.defs)
next
  case (update t state updates t' now_at i)
  show ?case
  proof
    fix c
    assume "c \<in> set (claims (claimsReducer now_at state (updateClaim i updates)))"
    then obtain k where k: "k < length (claims state)"
      and c: "c = update_claim_at now_at i updates (k, claims state ! k)"
      by (auto simp: in_set_conv_nth length_after_update nth_after_update)
    from k have old: "createdAt (claims state ! k) \<le> updatedAt (claims state ! k)"
      "updatedAt (claims state ! k) \<le> t"
      using update.IH by simp_all
    from k update.hyps have clock: "t \<le> now_at k" "now_at k \<le> t'" by simp_all
    show "createdAt c \<le> updatedAt c \<and> updatedAt c \<le> t'"
    proof (cases "claim_id (claims state ! k) = i")
      case True
      with old clock update.hyps(2) show ?thesis
        by (simp add: c update_claim_at_match createdAt_spread)
    next
      case False
      with old clock show ?thesis
        by (simp add: c update_claim_at_other)
    qed
  qed
next
  case (save t state now_at d)
  then show ?case by (simp add: saveInProgressClaim_def)
next
  case (delete t state now_at j)
  then show ?case by (simp add: deleteInProgressClaim_def)
qed

section \<open>The claims\<close>

subsection \<open>C1: saving and loading\<close>

text \<open>
  C1, as the code has it. When the medium accepts both writes, \<^verbatim>\<open>saveToStorage\<close>
  followed by \<^verbatim>\<open>loadFromStorage\<close> on a fresh provider (one that starts from
  \<open>initialState\<close>) gives back the table of claims as JSON carries it, which is the
  table itself when no number in it is \<^verbatim>\<open>NaN\<close> or infinite. Every draft comes back
  with \<^verbatim>\<open>approvedAssessments\<close> rebuilt as a set: a list without a repeated id, with
  the members that the set had before it was written as an array. The other fields of
  a draft come back as JSON carries them: the form data without the keys that held
  \<^verbatim>\<open>undefined\<close>.
\<close>

theorem save_load_round_trip:
  assumes "accepts Claims_key" and "accepts In_progress_key"
    and "loaded = load now_at (fst (saveToStorage accepts state storage))"
  shows "claims loaded = map json_claim (claims state)
    \<and> ((\<forall>c \<in> set (claims state). finite_claim c) \<longrightarrow> claims loaded = claims state)
    \<and> (\<forall>d \<in> set (inProgressClaims loaded). distinct (approvedAssessments d))
    \<and> map (\<lambda>d. set (approvedAssessments d)) (inProgressClaims loaded)
        = map (\<lambda>d. set (approvedAssessments d)) (inProgressClaims state)
    \<and> map draft_id (inProgressClaims loaded) = map draft_id (inProgressClaims state)
    \<and> map formData (inProgressClaims loaded)
        = map (\<lambda>d. json_partial (formData d)) (inProgressClaims state)
    \<and> map draft_photos (inProgressClaims loaded) = map draft_photos (inProgressClaims state)
    \<and> map draft_videos (inProgressClaims loaded) = map draft_videos (inProgressClaims state)
    \<and> map draft_damageAssessments (inProgressClaims loaded)
        = map (\<lambda>d. map json_assessment (draft_damageAssessments d)) (inProgressClaims state)
    \<and> map analysisComplete (inProgressClaims loaded)
        = map analysisComplete (inProgressClaims state)
    \<and> map lastSaved (inProgressClaims loaded) = map lastSaved (inProgressClaims state)"
proof -
  have c: "claims loaded = map json_claim (claims state)"
    and d: "inProgressClaims loaded =
      map (\<lambda>d. from_storage (json_draft (for_storage d))) (inProgressClaims state)"
    by (simp_all add: assms(3) load_def dispatch_all_def load_after_save [OF assms(1,2)]
        initialState_def comp_def)
  have exact: "(\<forall>c \<in> set (claims state). finite_claim c) \<longrightarrow> claims loaded = claims state"
    by (simp add: c map_idI json_claim_finite)
  have sets: "\<forall>d \<in> set (inProgressClaims loaded). distinct (approvedAssessments d)"
    unfolding assms(3) by (rule loaded_drafts_are_sets)
  from c exact sets show ?thesis
    by (simp add: d comp_def read_back_draft)
qed

text \<open>
  Two drafts, saved and loaded again: \<^verbatim>\<open>s1\<close> approves \<^verbatim>\<open>a\<close> and \<^verbatim>\<open>b\<close>,
  \<^verbatim>\<open>s2\<close> approves \<^verbatim>\<open>b\<close> and \<^verbatim>\<open>c\<close>, and the form data of \<^verbatim>\<open>s2\<close> loses the key
  \<^verbatim>\<open>repairShopId\<close> that held \<^verbatim>\<open>undefined\<close>.
\<close>

theorem save_load_round_trip_witness:
  "(\<lambda>key. True) Claims_key \<and> (\<lambda>key. True) In_progress_key
   \<and> map finite_claim (claims with_drafts) = [True]
   \<and> claims reloaded = claims just_added
   \<and> map draft_id (inProgressClaims reloaded) = [''s1'', ''s2'']
   \<and> map approvedAssessments (inProgressClaims with_drafts) = [[''a'', ''b''], [''b'', ''c'']]
   \<and> map approvedAssessments (inProgressClaims reloaded) = [[''a'', ''b''], [''b'', ''c'']]
   \<and> map (\<lambda>d. p_repairShopId (formData d)) (inProgressClaims with_drafts) = [None, Some None]
   \<and> map (\<lambda>d. p_repairShopId (formData d)) (inProgressClaims reloaded) = [None, None]"
proof -
  have t: "(\<lambda>key::storage_key. True) Claims_key" "(\<lambda>key::storage_key. True) In_progress_key"
    by simp_all
  note rt = save_load_round_trip [OF t reloaded_def]
  have c: "claims with_drafts = claims just_added"
    and d: "inProgressClaims with_drafts = [scenario_draft [''a'', ''b''] True, second_draft]"
    by (simp_all add: with_drafts_def with_draft_def saveInProgressClaim_def just_added_def
        addClaim_def initialState_def scenario_draft_def second_draft_def)
  have f: "\<forall>c \<in> set (claims with_drafts). finite_claim c"
    unfolding c by (rule finite_just_added)
  from rt f have 1: "claims reloaded = claims with_drafts"
    by blast
  from rt have 2: "map draft_id (inProgressClaims reloaded) = map draft_id (inProgressClaims with_drafts)"
    by blast
  from rt have 3: "map formData (inProgressClaims reloaded)
        = map (\<lambda>d. json_partial (formData d)) (inProgressClaims with_drafts)"
    by blast
  have 4: "map approvedAssessments (inProgressClaims reloaded) = [[''a'', ''b''], [''b'', ''c'']]"
    by (simp add: reloaded_def load_def dispatch_all_def load_after_save [OF t] d
        from_storage_def json_draft_def for_storage_def Array_from_def new_Set_def set_add_def
        scenario_draft_def second_draft_def initialState_def)
  have "map (\<lambda>d. p_repairShopId (formData d)) (inProgressClaims reloaded)
      = map p_repairShopId (map formData (inProgressClaims reloaded))"
    by (simp add: comp_def)
  also have "\<dots> = [None, None]"
    unfolding 3 by (simp add: d json_partial_def scenario_draft_def second_draft_def no_keys_def)
  finally have 5: "map (\<lambda>d. p_repairShopId (formData d)) (inProgressClaims reloaded) = [None, None]" .
  have 6: "map (\<lambda>d. p_repairShopId (formData d)) (inProgressClaims with_drafts) = [None, Some None]"
    "map approvedAssessments (inProgressClaims with_drafts) = [[''a'', ''b''], [''b'', ''c'']]"
    by (simp_all add: d scenario_draft_def second_draft_def no_keys_def)
  from 2 have 7: "map draft_id (inProgressClaims reloaded) = [''s1'', ''s2'']"
    by (simp add: d scenario_draft_def second_draft_def)
  from f have 8: "map finite_claim (claims with_drafts) = [True]"
    by (simp add: c claims_just_added)
  from 8 1 c 4 5 6 7 show ?thesis by simp
qed

text \<open>
  C1 as it is written fails: when the medium refuses the write (the quota is exceeded),
  \<^verbatim>\<open>saveToStorage\<close> logs the failure and the table that is loaded is empty; and a claim
  whose total is \<^verbatim>\<open>NaN\<close> comes back with the total \<^verbatim>\<open>null\<close>.
\<close>

theorem save_load_counterexample:
  "claims just_added \<noteq> []
   \<and> claims (load (\<lambda>k. 0) (fst (saveToStorage (\<lambda>key. False) just_added empty_storage))) = []
   \<and> totalEstimatedCost (claims nan_state ! 0) = NaN
   \<and> totalEstimatedCost
        (claims (load (\<lambda>k. 0) (fst (saveToStorage (\<lambda>key. True) nan_state empty_storage))) ! 0)
      = Null"
proof -
  have t: "(\<lambda>key::storage_key. True) Claims_key" "(\<lambda>key::storage_key. True) In_progress_key"
    by simp_all
  have "claims (load (\<lambda>k. 0) (fst (saveToStorage (\<lambda>key. False) just_added empty_storage))) = []"
    by (simp add: save_refused load_def dispatch_all_def loadFromStorage_def load_claims_step_def
        load_in_progress_step_def empty_storage_def initialState_def)
  moreover have n: "claims nan_state =
     [ClaimData.extend (scenario_data\<lparr> totalEstimatedCost := NaN \<rparr>)
        (Claim.fields ''claim_1000_k3j9x2m1q'' 1000 1000)]"
    by (simp add: nan_state_def claims_after_add generate_id_1000 initialState_def)
  moreover have "totalEstimatedCost
        (claims (load (\<lambda>k. 0) (fst (saveToStorage (\<lambda>key. True) nan_state empty_storage))) ! 0)
      = Null"
    by (simp add: load_def dispatch_all_def load_after_save [OF t] n json_claim_def
        ClaimData.defs Claim.defs)
  ultimately show ?thesis
    by (simp add: claims_just_added ClaimData.defs Claim.defs)
qed

subsection \<open>C2: the total of the approved assessments\<close>

text \<open>
  C2. Three assessments cost 100, 200 and 300, and the first and the third are
  approved. Submitted through \<^verbatim>\<open>NewClaim.tsx\<close>, the claim keeps the two approved
  assessments and its total is 400. Submitted with all three approved and then edited
  through \<^verbatim>\<open>EditClaim.tsx\<close> with the second one no longer approved, the claim has the
  total 400 and still holds all three assessments: the page passes its whole list of
  assessments to \<^verbatim>\<open>updateClaim\<close>, so the assessment that is not approved is not dropped.
\<close>

theorem edit_submit_keeps_unapproved:
  "map estimatedCost (damageAssessments (claims submitted_two ! 0)) = [Num 100, Num 300]
   \<and> totalEstimatedCost (claims submitted_two ! 0) = Num 400
   \<and> map estimatedCost (damageAssessments (claims submitted_all ! 0))
       = [Num 100, Num 200, Num 300]
   \<and> totalEstimatedCost (claims submitted_all ! 0) = Num 600
   \<and> map estimatedCost (damageAssessments (claims edited_two ! 0))
       = [Num 100, Num 200, Num 300]
   \<and> totalEstimatedCost (claims edited_two ! 0) = Num 400"
proof -
  have two: "claims submitted_two =
      [ClaimData.extend
         (NewClaim_newClaim scenario_form [] [] three_assessments [''a1'', ''a3''] True False)
         (Claim.fields ''claim_1000_k3j9x2m1q'' 1000 1000)]"
    by (simp add: submitted_two_def NewClaim_submission valid_scenario_form generate_id_1000
        initialState_def)
  have all: "claims submitted_all =
      [ClaimData.extend
         (NewClaim_newClaim scenario_form [] [] three_assessments [''a1'', ''a2'', ''a3''] True False)
         (Claim.fields ''claim_1000_k3j9x2m1q'' 1000 1000)]"
    by (simp add: submitted_all_def NewClaim_submission valid_scenario_form generate_id_1000
        initialState_def)
  have found: "getClaim submitted_all ''claim_1000_k3j9x2m1q'' = Some (claims submitted_all ! 0)"
    by (simp add: getClaim_def all ClaimData.defs Claim.defs)
  have i: "claim_id (claims submitted_all ! 0) = ''claim_1000_k3j9x2m1q''"
    by (simp add: all ClaimData.defs Claim.defs)
  have edited: "claims edited_two ! 0 =
      (spread (claims submitted_all ! 0)
         (EditClaim_updatedClaim scenario_form [] [] three_assessments [''a1'', ''a3''] True 2000))
        \<lparr> updatedAt := 2000 \<rparr>"
    by (simp add: edited_two_def found EditClaim_handleSubmit_def valid_scenario_form
        dispatch_all_def i nth_after_update update_claim_at_match all)
  have "map estimatedCost (damageAssessments (claims submitted_two ! 0)) = [Num 100, Num 300]"
    by (simp add: two ClaimData.defs Claim.defs NewClaim_newClaim_assessments
        three_assessments_def assessment_of_def)
  moreover have "totalEstimatedCost (claims submitted_two ! 0) = Num 400"
    by (simp add: two ClaimData.defs Claim.defs)
       (simp only: NewClaim_newClaim_assessments scenario_costs)
  moreover
  have "map estimatedCost (damageAssessments (claims submitted_all ! 0))
      = [Num 100, Num 200, Num 300]"
    by (simp add: all ClaimData.defs Claim.defs NewClaim_newClaim_assessments
        three_assessments_def assessment_of_def)
  moreover have "totalEstimatedCost (claims submitted_all ! 0) = Num 600"
    by (simp add: all ClaimData.defs Claim.defs)
       (simp only: NewClaim_newClaim_assessments scenario_costs)
  moreover
  have "map estimatedCost (damageAssessments (claims edited_two ! 0))
      = [Num 100, Num 200, Num 300]"
    by (simp add: edited spread_def overwrite_def EditClaim_patch
        three_assessments_def assessment_of_def)
  moreover have "totalEstimatedCost (claims edited_two ! 0) = Num 400"
    by (simp add: edited spread_def overwrite_def)
       (simp only: EditClaim_patch scenario_costs option.case)
  ultimately show ?thesis by simp
qed

subsection \<open>C3: adding a claim\<close>

text \<open>
  C3, as the code has it. \<^verbatim>\<open>addClaim\<close> puts the new claim at index 0, the table grows
  by one and the claims that were there follow unchanged. The new claim holds the
  fields it was given, among them the status; the id is not empty and is
  \<open>generate_id\<close> of the clock reading and the random suffix, so it differs from the id
  generated from any other pair of reading and suffix; \<^verbatim>\<open>createdAt\<close> and
  \<^verbatim>\<open>updatedAt\<close> are the two readings of the clock, equal when the two readings are.
  The claim that \<^verbatim>\<open>handleSubmit\<close> of \<^verbatim>\<open>NewClaim.tsx\<close> adds has the status
  \<^verbatim>\<open>pending\<close>.
\<close>

theorem addClaim_postcondition:
  assumes "state' =
     claimsReducer now_at state (addClaim claimData date_now suffix t_created t_updated)"
  shows "claims state' ! 0 =
       ClaimData.extend claimData (Claim.fields (generate_id date_now suffix) t_created t_updated)
     \<and> claim_id (claims state' ! 0) \<noteq> []
     \<and> (\<forall>date_now' suffix'. (date_now', suffix') \<noteq> (date_now, suffix) \<longrightarrow>
           generate_id date_now' suffix' \<noteq> claim_id (claims state' ! 0))
     \<and> createdAt (claims state' ! 0) = t_created
     \<and> updatedAt (claims state' ! 0) = t_updated
     \<and> (t_created = t_updated \<longrightarrow>
           createdAt (claims state' ! 0) = updatedAt (claims state' ! 0))
     \<and> status (claims state' ! 0) = status claimData
     \<and> ClaimData.truncate (claims state' ! 0) = claimData
     \<and> length (claims state') = Suc (length (claims state))
     \<and> tl (claims state') = claims state
     \<and> (\<forall>c. ADD_CLAIM c \<in> set (NewClaim_handleSubmit fd ph vi assessments approved analysed
            isAnalyzing date_now suffix t_created t_updated) \<longrightarrow> status c = Pending)"
proof -
  have c: "claims state' =
      ClaimData.extend claimData (Claim.fields (generate_id date_now suffix) t_created t_updated)
        # claims state"
    unfolding assms by (rule claims_after_add)
  have i: "claim_id (ClaimData.extend claimData
      (Claim.fields (generate_id date_now suffix) t_created t_updated)) = generate_id date_now suffix"
    by (simp add: ClaimData.defs Claim.defs)
  have fresh: "\<forall>date_now' suffix'. (date_now', suffix') \<noteq> (date_now, suffix) \<longrightarrow>
           generate_id date_now' suffix' \<noteq> generate_id date_now suffix"
    using generate_id_inj by blast
  have pending:
    "\<forall>c. ADD_CLAIM c \<in> set (NewClaim_handleSubmit fd ph vi assessments approved analysed
            isAnalyzing date_now suffix t_created t_updated) \<longrightarrow> status c = Pending"
    by (simp add: NewClaim_handleSubmit_def addClaim_def deleteInProgressClaim_def
        NewClaim_newClaim_def Let_def ClaimData.defs FormData.defs)
  show ?thesis
    using fresh pending
    by (simp add: c i generate_id_not_Nil truncate_extend) (simp add: ClaimData.defs Claim.defs)
qed

theorem addClaim_postcondition_witness:
  "claims just_added ! 0 =
       ClaimData.extend scenario_data (Claim.fields ''claim_1000_k3j9x2m1q'' 1000 1000)
   \<and> generate_id 1001 ''k3j9x2m1q'' \<noteq> claim_id (claims just_added ! 0)
   \<and> createdAt (claims just_added ! 0) = updatedAt (claims just_added ! 0)
   \<and> status (claims just_added ! 0) = Pending
   \<and> policyNumber (claims just_added ! 0) = ''POL-1''
   \<and> length (claims just_added) = 1"
proof -
  note post = addClaim_postcondition
    [OF just_added_def, of scenario_form "[]" "[]" three_assessments "[]" True False]
  have s: "status scenario_data = Pending" "policyNumber scenario_data = ''POL-1''"
    by (simp_all add: scenario_data_def NewClaim_newClaim_def Let_def scenario_form_def
        ClaimData.defs FormData.defs)
  from post have first: "claims just_added ! 0 =
      ClaimData.extend scenario_data (Claim.fields (generate_id 1000 ''k3j9x2m1q'') 1000 1000)"
    by (rule conjunct1)
  from post have fresh:
    "\<forall>date_now' suffix'. (date_now', suffix') \<noteq> (1000, ''k3j9x2m1q'') \<longrightarrow>
      generate_id date_now' suffix' \<noteq> claim_id (claims just_added ! 0)"
    by blast
  from post have same: "(1000::nat) = 1000 \<longrightarrow>
      createdAt (claims just_added ! 0) = updatedAt (claims just_added ! 0)"
    by blast
  from post have len: "length (claims just_added) = Suc (length (claims initialState))"
    by blast
  from fresh have "generate_id 1001 ''k3j9x2m1q'' \<noteq> claim_id (claims just_added ! 0)"
    by simp
  moreover from same have "createdAt (claims just_added ! 0) = updatedAt (claims just_added ! 0)"
    by simp
  moreover have "status (claims just_added ! 0) = Pending"
    "policyNumber (claims just_added ! 0) = ''POL-1''"
    by (simp_all add: first s ClaimData.defs Claim.defs)
  moreover from len have "length (claims just_added) = 1"
    by (simp add: initialState_def)
  ultimately show ?thesis
    using first generate_id_1000 by simp
qed

text \<open>
  C3 as it is written fails: two calls of \<^verbatim>\<open>addClaim\<close> in the same millisecond that
  draw the same suffix give two claims with one id; a clock that ticks between the two
  readings of \<^verbatim>\<open>new Date()\<close> gives \<^verbatim>\<open>createdAt\<close> 5 and \<^verbatim>\<open>updatedAt\<close> 6; and a field
  set with the status \<^verbatim>\<open>approved\<close> is added with that status.
\<close>

theorem addClaim_claim_counterexample:
  "\<not> distinct (map claim_id (claims added_twice))
   \<and> createdAt (claims added_twice ! 0) \<noteq> updatedAt (claims added_twice ! 0)
   \<and> status (claims added_twice ! 0) \<noteq> Pending"
  by (simp add: added_twice_def claims_after_add ClaimData.defs Claim.defs)

subsection \<open>C4: updating a claim\<close>

text \<open>
  C4, as the code has it. When the claim at index \<open>k\<close> has the id \<open>i\<close>,
  \<^verbatim>\<open>updateClaim(i, updates)\<close> replaces it by the claim with the keys of the patch
  written over its fields and with \<^verbatim>\<open>updatedAt\<close> set to the reading of the clock,
  whatever \<^verbatim>\<open>updatedAt\<close> the patch carries. The new \<^verbatim>\<open>updatedAt\<close> is later than the
  old one exactly when that reading is later than the old value. The table keeps its
  length, and the claims with another id are unchanged.
\<close>

theorem updateClaim_postcondition:
  assumes "k < length (claims state)" and "claim_id (claims state ! k) = i"
    and "state' = claimsReducer now_at state (updateClaim i updates)"
  shows "claims state' ! k = (spread (claims state ! k) updates)\<lparr> updatedAt := now_at k \<rparr>
     \<and> updatedAt (claims state' ! k) = now_at k
     \<and> (updatedAt (claims state ! k) < updatedAt (claims state' ! k)
          \<longleftrightarrow> updatedAt (claims state ! k) < now_at k)
     \<and> length (claims state') = length (claims state)
     \<and> (\<forall>j < length (claims state). claim_id (claims state ! j) \<noteq> i \<longrightarrow>
           claims state' ! j = claims state ! j)"
proof -
  have "claims state' ! k = (spread (claims state ! k) updates)\<lparr> updatedAt := now_at k \<rparr>"
    using assms by (simp add: nth_after_update update_claim_at_match)
  moreover have "\<forall>j < length (claims state). claim_id (claims state ! j) \<noteq> i \<longrightarrow>
           claims state' ! j = claims state ! j"
    using assms(3) by (simp add: nth_after_update update_claim_at_other)
  moreover have "length (claims state') = length (claims state)"
    using assms(3) by (simp add: length_after_update)
  ultimately show ?thesis by simp
qed

theorem updateClaim_postcondition_witness:
  "0 < length (claims just_added)
   \<and> claim_id (claims just_added ! 0) = ''claim_1000_k3j9x2m1q''
   \<and> status (claims updated_later ! 0) = Approved
   \<and> policyNumber (claims updated_later ! 0) = ''POL-1''
   \<and> updatedAt (claims updated_later ! 0) = 2000
   \<and> updatedAt (claims just_added ! 0) < updatedAt (claims updated_later ! 0)"
proof -
  have len: "0 < length (claims just_added)"
    and i: "claim_id (claims just_added ! 0) = ''claim_1000_k3j9x2m1q''"
    and old: "updatedAt (claims just_added ! 0) = 1000"
    and pol: "policyNumber (claims just_added ! 0) = ''POL-1''"
    by (simp_all add: claims_just_added ClaimData.defs Claim.defs scenario_data_def
        NewClaim_newClaim_def Let_def scenario_form_def FormData.defs)
  note post = updateClaim_postcondition [OF len i updated_later_def]
  from post have new: "claims updated_later ! 0 =
      (spread (claims just_added ! 0)
         (no_keys\<lparr> p_status := Some Approved, p_updatedAt := Some 1 \<rparr>))\<lparr> updatedAt := 2000 \<rparr>"
    by (rule conjunct1)
  have "status (claims updated_later ! 0) = Approved"
    "policyNumber (claims updated_later ! 0) = ''POL-1''"
    "updatedAt (claims updated_later ! 0) = 2000"
    by (simp_all add: new spread_def overwrite_def no_keys_def pol)
  with len i old show ?thesis by simp
qed

text \<open>
  C4 as it is written fails: a claim added at the reading 1000 and updated while the
  clock still reads 1000 keeps the \<^verbatim>\<open>updatedAt\<close> it had, which is not strictly
  greater.
\<close>

theorem updateClaim_strictly_later_counterexample:
  "claim_id (claims just_added ! 0) = ''claim_1000_k3j9x2m1q''
   \<and> updatedAt (claims just_added ! 0) = 1000
   \<and> updatedAt (claims updated_same_ms ! 0) = 1000
   \<and> \<not> updatedAt (claims just_added ! 0) < updatedAt (claims updated_same_ms ! 0)"
  by (simp add: updated_same_ms_def updateClaim_def claims_just_added update_claim_at_def
      ClaimData.defs Claim.defs)

subsection \<open>C5: saving a draft\<close>

text \<open>
  C5. After \<^verbatim>\<open>saveInProgressClaim(d)\<close> the drafts with the id of \<open>d\<close> are exactly
  \<open>[d]\<close>: a draft that had this id is replaced, not merged. After two saves in a row
  the drafts with the id of the second are exactly the second. The drafts with another
  id stay as they were.
\<close>

theorem saveInProgressClaim_upsert:
  "filter (\<lambda>claim. draft_id claim = draft_id d)
     (inProgressClaims (claimsReducer now_at state (saveInProgressClaim d))) = [d]
   \<and> filter (\<lambda>claim. draft_id claim = draft_id d2)
     (inProgressClaims (claimsReducer now_at' (claimsReducer now_at state (saveInProgressClaim d1))
        (saveInProgressClaim d2))) = [d2]
   \<and> filter (\<lambda>claim. draft_id claim \<noteq> draft_id d)
     (inProgressClaims (claimsReducer now_at state (saveInProgressClaim d)))
     = filter (\<lambda>claim. draft_id claim \<noteq> draft_id d) (inProgressClaims state)"
  by (simp add: saveInProgressClaim_def)

text \<open>Two drafts with the id \<^verbatim>\<open>s1\<close> saved one after the other: the second one is left.\<close>

theorem saveInProgressClaim_upsert_witness:
  "draft_id (scenario_draft [''a'', ''b''] True) = draft_id (scenario_draft [''c''] False)
   \<and> inProgressClaims saved_twice = [scenario_draft [''c''] False]
   \<and> scenario_draft [''c''] False \<noteq> scenario_draft [''a'', ''b''] True"
proof -
  have i: "inProgressClaims just_added = []"
    by (simp add: just_added_def addClaim_def initialState_def)
  have same: "draft_id (scenario_draft [''a'', ''b''] True) = draft_id (scenario_draft [''c''] False)"
    by (simp add: scenario_draft_def)
  have only: "inProgressClaims saved_twice =
      filter (\<lambda>claim. draft_id claim = draft_id (scenario_draft [''c''] False))
        (inProgressClaims saved_twice)"
    by (simp add: saved_twice_def with_draft_def saveInProgressClaim_def i scenario_draft_def)
  from saveInProgressClaim_upsert [of "scenario_draft [''c''] False" "\<lambda>k. 1000" with_draft]
  have "filter (\<lambda>claim. draft_id claim = draft_id (scenario_draft [''c''] False))
     (inProgressClaims saved_twice) = [scenario_draft [''c''] False]"
    unfolding saved_twice_def by (rule conjunct1)
  with only have "inProgressClaims saved_twice = [scenario_draft [''c''] False]" by simp
  moreover have "scenario_draft [''c''] False \<noteq> scenario_draft [''a'', ''b''] True"
    by (simp add: scenario_draft_def)
  ultimately show ?thesis using same by simp
qed

subsection \<open>C6: the two timestamps\<close>

text \<open>
  C6, as the code has it. In every state reached from \<open>initialState\<close> by
  \<^verbatim>\<open>addClaim\<close>, \<^verbatim>\<open>updateClaim\<close> with a patch that has no key \<^verbatim>\<open>createdAt\<close>,
  \<^verbatim>\<open>saveInProgressClaim\<close> and \<^verbatim>\<open>deleteInProgressClaim\<close>, with a clock that does not run
  backwards, every claim has \<^verbatim>\<open>createdAt\<close> at most \<^verbatim>\<open>updatedAt\<close>.
\<close>

theorem updatedAt_ge_createdAt:
  "reachable t state \<Longrightarrow> c \<in> set (claims state) \<Longrightarrow> createdAt c \<le> updatedAt c"
  using reachable_invariant by blast

theorem updatedAt_ge_createdAt_witness:
  "reachable 2000 updated_later
   \<and> claims updated_later ! 0 \<in> set (claims updated_later)
   \<and> createdAt (claims updated_later ! 0) \<le> updatedAt (claims updated_later ! 0)"
proof -
  have r0: "reachable 1000 initialState" by (rule reachable.start)
  have r1: "reachable 1000 just_added"
    unfolding just_added_def by (rule reachable.add [OF r0]) simp_all
  have r2: "reachable 2000 updated_later"
    unfolding updated_later_def by (rule reachable.update [OF r1]) (simp_all add: no_keys_def)
  have m: "claims updated_later ! 0 \<in> set (claims updated_later)"
    by (simp add: updated_later_def length_after_update claims_just_added)
  from updatedAt_ge_createdAt [OF r2 m] r2 m show ?thesis by simp
qed

text \<open>
  C6 as it is written fails: \<^verbatim>\<open>createdAt\<close> is a key of \<^verbatim>\<open>Partial<Claim>\<close>, and a
  patch that carries it moves \<^verbatim>\<open>createdAt\<close> past the reading that \<^verbatim>\<open>updatedAt\<close>
  gets.
\<close>

theorem updatedAt_ge_createdAt_counterexample:
  "createdAt (claims created_moved ! 0) = 9999
   \<and> updatedAt (claims created_moved ! 0) = 2000
   \<and> \<not> createdAt (claims created_moved ! 0) \<le> updatedAt (claims created_moved ! 0)"
  by (simp add: created_moved_def updateClaim_def claims_just_added update_claim_at_def
      ClaimData.defs Claim.defs spread_def overwrite_def no_keys_def)

subsection \<open>C7: the statuses approved and rejected\<close>

text \<open>
  C7, as the code has it. The operations of the provider do not guard a status.
  \<^verbatim>\<open>addClaim\<close> leaves the claims that were there as they are, and so do
  \<^verbatim>\<open>saveInProgressClaim\<close> and \<^verbatim>\<open>deleteInProgressClaim\<close>; \<^verbatim>\<open>updateClaim\<close> with a
  patch that has no key \<^verbatim>\<open>status\<close> leaves every status as it is; \<^verbatim>\<open>updateClaim\<close>
  with a patch that has the key \<^verbatim>\<open>status\<close> gives that status to the claims with the
  id, whatever status they had. The card \<^verbatim>\<open>Claim Actions\<close> of \<^verbatim>\<open>ClaimDetails.tsx\<close>
  offers no change of status for a claim that is approved or rejected.
\<close>

theorem status_kept_without_status_key:
  "tl (claims (claimsReducer now_at state (addClaim claimData date_now suffix t_created t_updated)))
      = claims state
   \<and> (p_status updates = None \<longrightarrow>
        map status (claims (claimsReducer now_at state (updateClaim i updates)))
          = map status (claims state))
   \<and> (\<forall>k < length (claims state). \<forall>new.
        claim_id (claims state ! k) = i \<and> p_status updates = Some new \<longrightarrow>
        status (claims (claimsReducer now_at state (updateClaim i updates)) ! k) = new)
   \<and> claims (claimsReducer now_at state (saveInProgressClaim d)) = claims state
   \<and> claims (claimsReducer now_at state (deleteInProgressClaim j)) = claims state
   \<and> claim_actions Approved = [] \<and> claim_actions Rejected = []"
proof -
  have "p_status updates = None \<longrightarrow>
        map status (claims (claimsReducer now_at state (updateClaim i updates)))
          = map status (claims state)"
    by (simp add: updateClaim_def map_status_update)
  moreover have "\<forall>k < length (claims state). \<forall>new.
      claim_id (claims state ! k) = i \<and> p_status updates = Some new \<longrightarrow>
        status (claims (claimsReducer now_at state (updateClaim i updates)) ! k) = new"
    by (simp add: nth_after_update update_claim_at_match status_spread_Some)
  ultimately show ?thesis
    by (simp add: claims_after_add saveInProgressClaim_def deleteInProgressClaim_def)
qed

theorem status_kept_without_status_key_witness:
  "p_status (no_keys\<lparr> p_repairShopId := Some (Some ''shop_002'') \<rparr>) = None
   \<and> map status (claims (claimsReducer (\<lambda>k. 3000) approved_state
        (updateClaim ''claim_1000_k3j9x2m1q''
           (no_keys\<lparr> p_repairShopId := Some (Some ''shop_002'') \<rparr>))))
      = [Approved]
   \<and> 0 < length (claims just_added)
   \<and> claim_id (claims just_added ! 0) = ''claim_1000_k3j9x2m1q''
   \<and> p_status (no_keys\<lparr> p_status := Some Rejected \<rparr>) = Some Rejected
   \<and> status (claims (claimsReducer (\<lambda>k. 3000) just_added
        (updateClaim ''claim_1000_k3j9x2m1q'' (no_keys\<lparr> p_status := Some Rejected \<rparr>))) ! 0)
      = Rejected"
proof -
  have a: "map status (claims approved_state) = [Approved]"
    by (simp add: approved_state_def handleStatusUpdate_def updateClaim_def claims_just_added
        update_claim_at_def ClaimData.defs Claim.defs spread_def overwrite_def no_keys_def)
  have n: "p_status (no_keys\<lparr> p_repairShopId := Some (Some ''shop_002'') \<rparr>) = None"
    by (simp add: no_keys_def)
  have len: "0 < length (claims just_added)"
    and i: "claim_id (claims just_added ! 0) = ''claim_1000_k3j9x2m1q''"
    by (simp_all add: claims_just_added ClaimData.defs Claim.defs)
  have r: "p_status (no_keys\<lparr> p_status := Some Rejected \<rparr>) = Some Rejected"
    by simp
  from status_kept_without_status_key [of "\<lambda>k. 3000" approved_state scenario_data 0 "[]" 0 0
      "no_keys\<lparr> p_repairShopId := Some (Some ''shop_002'') \<rparr>" "''claim_1000_k3j9x2m1q''"
      "scenario_draft [] False" "[]"]
  have "p_status (no_keys\<lparr> p_repairShopId := Some (Some ''shop_002'') \<rparr>) = None \<longrightarrow>
    map status (claims (claimsReducer (\<lambda>k. 3000) approved_state
        (updateClaim ''claim_1000_k3j9x2m1q''
           (no_keys\<lparr> p_repairShopId := Some (Some ''shop_002'') \<rparr>))))
      = map status (claims approved_state)"
    by blast
  with n a have 1: "map status (claims (claimsReducer (\<lambda>k. 3000) approved_state
        (updateClaim ''claim_1000_k3j9x2m1q''
           (no_keys\<lparr> p_repairShopId := Some (Some ''shop_002'') \<rparr>))))
      = [Approved]"
    by simp
  from status_kept_without_status_key [of "\<lambda>k. 3000" just_added scenario_data 0 "[]" 0 0
      "no_keys\<lparr> p_status := Some Rejected \<rparr>" "''claim_1000_k3j9x2m1q''"
      "scenario_draft [] False" "[]"]
  have "\<forall>k < length (claims just_added). \<forall>new.
        claim_id (claims just_added ! k) = ''claim_1000_k3j9x2m1q''
          \<and> p_status (no_keys\<lparr> p_status := Some Rejected \<rparr>) = Some new \<longrightarrow>
        status (claims (claimsReducer (\<lambda>k. 3000) just_added
          (updateClaim ''claim_1000_k3j9x2m1q'' (no_keys\<lparr> p_status := Some Rejected \<rparr>))) ! k) = new"
    by blast
  with len i r have 2: "status (claims (claimsReducer (\<lambda>k. 3000) just_added
        (updateClaim ''claim_1000_k3j9x2m1q'' (no_keys\<lparr> p_status := Some Rejected \<rparr>))) ! 0)
      = Rejected"
    by blast
  from n 1 len i r 2 show ?thesis by blast
qed

text \<open>
  C7 as it is written fails: a claim that \<^verbatim>\<open>handleStatusUpdate\<close> has approved goes
  back to \<^verbatim>\<open>pending\<close> when \<^verbatim>\<open>updateClaim\<close> is called with a patch whose status is
  \<^verbatim>\<open>pending\<close>.
\<close>

theorem terminal_status_counterexample:
  "status (claims approved_state ! 0) = Approved \<and> status (claims reopened ! 0) = Pending"
  by (simp add: reopened_def approved_state_def handleStatusUpdate_def updateClaim_def
      claims_just_added update_claim_at_def ClaimData.defs Claim.defs spread_def overwrite_def
      no_keys_def)

subsection \<open>C8: updating an id that is not in the table\<close>

text \<open>
  C8. When no claim of the table has the id \<open>i\<close>, \<^verbatim>\<open>updateClaim(i, updates)\<close> leaves
  the whole state as it was; the operation has no error result and no exception in the
  reducer, so the caller learns nothing.
\<close>

theorem updateClaim_missing_id_noop:
  "i \<notin> claim_id ` set (claims state) \<Longrightarrow>
   claimsReducer now_at state (updateClaim i updates) = state"
  by (simp add: updateClaim_def map_update_no_match)

text \<open>On the empty table, and on a table that holds one claim with another id.\<close>

theorem updateClaim_missing_id_noop_witness:
  "''missing-id'' \<notin> claim_id ` set (claims initialState)
   \<and> claimsReducer (\<lambda>k. 5) initialState
        (updateClaim ''missing-id'' (no_keys\<lparr> p_status := Some Approved \<rparr>)) = initialState
   \<and> claims initialState = []
   \<and> ''missing-id'' \<notin> claim_id ` set (claims just_added)
   \<and> claimsReducer (\<lambda>k. 5) just_added
        (updateClaim ''missing-id'' (no_keys\<lparr> p_status := Some Approved \<rparr>)) = just_added"
proof -
  have a: "''missing-id'' \<notin> claim_id ` set (claims initialState)"
    by (simp add: initialState_def)
  have b: "''missing-id'' \<notin> claim_id ` set (claims just_added)"
    by (simp add: claims_just_added ClaimData.defs Claim.defs)
  from updateClaim_missing_id_noop [OF a] updateClaim_missing_id_noop [OF b] a b show ?thesis
    by (simp add: initialState_def)
qed

subsection \<open>C9: loading from an absent or corrupt storage\<close>



subsection \<open>C10: each operation changes its own table only\<close>

text \<open>
  C10. \<^verbatim>\<open>addClaim\<close> and \<^verbatim>\<open>updateClaim\<close> leave the drafts, \<^verbatim>\<open>loading\<close> and
  \<^verbatim>\<open>error\<close> as they are; \<^verbatim>\<open>saveInProgressClaim\<close> and \<^verbatim>\<open>deleteInProgressClaim\<close>
  leave the claims, \<^verbatim>\<open>loading\<close> and \<^verbatim>\<open>error\<close> as they are. \<^verbatim>\<open>getClaim\<close> and
  \<^verbatim>\<open>getInProgressClaim\<close> dispatch nothing: they return a value computed from the
  state.
\<close>

theorem table_isolation:
  "inProgressClaims (claimsReducer now_at state
       (addClaim claimData date_now suffix t_created t_updated)) = inProgressClaims state
   \<and> loading (claimsReducer now_at state
       (addClaim claimData date_now suffix t_created t_updated)) = loading state
   \<and> error (claimsReducer now_at state
       (addClaim claimData date_now suffix t_created t_updated)) = error state
   \<and> inProgressClaims (claimsReducer now_at state (updateClaim i updates)) = inProgressClaims state
   \<and> loading (claimsReducer now_at state (updateClaim i updates)) = loading state
   \<and> error (claimsReducer now_at state (updateClaim i updates)) = error state
   \<and> claims (claimsReducer now_at state (saveInProgressClaim d)) = claims state
   \<and> loading (claimsReducer now_at state (saveInProgressClaim d)) = loading state
   \<and> error (claimsReducer now_at state (saveInProgressClaim d)) = error state
   \<and> claims (claimsReducer now_at state (deleteInProgressClaim j)) = claims state
   \<and> loading (claimsReducer now_at state (deleteInProgressClaim j)) = loading state
   \<and> error (claimsReducer now_at state (deleteInProgressClaim j)) = error state"
  by (simp add: addClaim_def updateClaim_def saveInProgressClaim_def deleteInProgressClaim_def)

end
